theory Spec2Isabelle
  imports Complex_Main "HOL-Library.Monad_Syntax"
begin

section \<open>PromptCCD training with Gaussian Mixture Prompt: stage lifecycle and checkpoints\<close>

text \<open>
  The development embeds \<^verbatim>\<open>models/promptccd_training_w_gmp.py\<close>. Python integers are
  \<^typ>\<open>int\<close>, Python strings are \<^typ>\<open>string\<close>, exceptions are values of the type
  \<open>error\<close> on the left of a sum. Floating-point numbers are idealised as \<^typ>\<open>real\<close>:
  rounding and overflow are outside the model. Where an operation on floats is singular in
  exact arithmetic (a division by zero, the logarithm of zero, the mean of nothing) the
  source continues with an infinity or a NaN; the model then gives \<open>NonFinite\<close>, which
  every later operation keeps.
\<close>

datatype error =
  ValueError | RuntimeError | IndexError | ZeroDivisionError | FileNotFoundError

datatype fl = Finite real | NonFinite

definition fl_div :: "real \<Rightarrow> real \<Rightarrow> fl" where
  \<comment> \<open>\<open>x / y\<close> on floats\<close>
  "fl_div x y = (if y = 0 then NonFinite else Finite (x / y))"

definition fl_mean :: "fl list \<Rightarrow> fl" where
  \<comment> \<open>\<^verbatim>\<open>x.mean()\<close>\<close>
  "fl_mean xs =
     (if xs = [] \<or> NonFinite \<in> set xs then NonFinite
      else Finite (sum_list (map (\<lambda>x. case x of Finite r \<Rightarrow> r | NonFinite \<Rightarrow> 0) xs)
                     / real (length xs)))"

subsection \<open>Formatting and paths\<close>

definition digit_char :: "nat \<Rightarrow> char" where
  "digit_char d = ''0123456789'' ! d"

fun str_nat :: "nat \<Rightarrow> string" where
  "str_nat n = (if n < 10 then [digit_char n] else str_nat (n div 10) @ [digit_char (n mod 10)])"

declare str_nat.simps [simp del]

definition str_int :: "int \<Rightarrow> string" where
  \<comment> \<open>the text an f-string puts for an integer\<close>
  "str_int i = (if i < 0 then CHR ''-'' # str_nat (nat (- i)) else str_nat (nat i))"

definition join2 :: "string \<Rightarrow> string \<Rightarrow> string" where
  \<comment> \<open>one round of the loop of \<^verbatim>\<open>posixpath.join\<close>\<close>
  "join2 path b =
     (if b \<noteq> [] \<and> hd b = CHR ''/'' then b
      else if path = [] \<or> last path = CHR ''/'' then path @ b
      else path @ ''/'' @ b)"

definition path_join :: "string \<Rightarrow> string list \<Rightarrow> string" where
  "path_join a p = foldl join2 a p"

record args =
  save_path :: string
  ccd_model :: string
  labelled_data :: int
  classes :: int
  n_stage :: int
  set_k_half :: bool
  epochs :: int
  fit_gmm_every_n_epoch :: int
  eval_every_n_epoch :: int
  contrast_unlabel_only :: bool
  sup_con_weight :: "real list"
  n_views :: int
  temperature :: real

definition stage_file :: "args \<Rightarrow> int \<Rightarrow> string \<Rightarrow> string" where
  \<comment> \<open>\<^verbatim>\<open>f'{args.ccd_model}_stage_{i}<suffix>'\<close>\<close>
  "stage_file a i suffix = ccd_model a @ ''_stage_'' @ str_int i @ suffix"

definition load_file :: "args \<Rightarrow> int \<Rightarrow> string \<Rightarrow> string" where
  \<comment> \<open>the paths of lines 34 and 35: \<^verbatim>\<open>os.path.join(args.save_path, 'model', name)\<close>\<close>
  "load_file a i suffix = path_join (save_path a) [''model'', stage_file a i suffix]"

definition model_path :: "args \<Rightarrow> string" where
  \<comment> \<open>line 40\<close>
  "model_path a = path_join (save_path a) [''model'']"

definition save_file :: "args \<Rightarrow> int \<Rightarrow> string \<Rightarrow> string" where
  \<comment> \<open>the paths of lines 146 to 151: \<^verbatim>\<open>os.path.join(self.model_path, name)\<close>\<close>
  "save_file a i suffix = path_join (model_path a) [stage_file a i suffix]"

definition conventional :: "args \<Rightarrow> int \<Rightarrow> string \<Rightarrow> bool \<Rightarrow> string" where
  \<comment> \<open>the convention in the words of the specification:
      \<^verbatim>\<open>{save_path}/model/{model_name}_stage_{i}_{model|model_proj_head}[_best].pt\<close>\<close>
  "conventional a i kind best =
     save_path a @ ''/model/'' @ ccd_model a @ ''_stage_'' @ str_int i @ ''_'' @ kind
       @ (if best then ''_best'' else []) @ ''.pt''"

subsection \<open>The stage lifecycle manager: \<^verbatim>\<open>PromptCCD_Model.__init__\<close>\<close>

definition component_count :: "args \<Rightarrow> int \<Rightarrow> error + int" where
  \<comment> \<open>lines 36 and 37; \<^verbatim>\<open>//\<close> is floor division and raises on a zero divisor\<close>
  "component_count a stage_i =
     (if n_stage a = 0 then Inl ZeroDivisionError
      else let K = labelled_data a + stage_i * ((classes a - labelled_data a) div n_stage a)
           in Inr (if set_k_half a then K div 2 else K))"

definition K_as_specified :: "args \<Rightarrow> int \<Rightarrow> int" where
  \<comment> \<open>the formula in the words of the specification: the product is divided\<close>
  "K_as_specified a stage_i =
     (let K = labelled_data a + (stage_i * (classes a - labelled_data a)) div n_stage a
      in if set_k_half a then K div 2 else K)"

text \<open>
  The checkpoint store is a map from paths to serialised parameter states. The backbone,
  the projection head and the mixture prompt are opaque collaborators: \<open>'p\<close> is the type of
  a parameter state, \<open>'g\<close> the type of the mixture-prompt state.
\<close>

type_synonym 'p store = "string \<rightharpoonup> 'p"

definition torch_load :: "'p store \<Rightarrow> string \<Rightarrow> error + 'p" where
  "torch_load fs path = (case fs path of None \<Rightarrow> Inl FileNotFoundError | Some sd \<Rightarrow> Inr sd)"

record ('p, 'g) trainer =
  model :: 'p
  projection_head :: 'p
  gmm_prompt :: 'g
  stage_i :: int
  loaded :: "string list"

definition PromptCCD_Model_init ::
  "('p \<times> 'p) \<Rightarrow> (int \<Rightarrow> 'g) \<Rightarrow> 'p store \<Rightarrow> args \<Rightarrow> ('p \<times> 'p) option \<Rightarrow> int
     \<Rightarrow> error + ('p, 'g) trainer" where
  \<comment> \<open>\<open>get_vit_model\<close> and \<open>GMMPrompt\<close> are the constructors of the collaborators;
      \<open>loaded\<close> lists the files read, in order\<close>
  "PromptCCD_Model_init get_vit_model GMMPrompt fs a prev i =
     (case prev of
        None \<Rightarrow>
          Inr \<lparr>model = fst get_vit_model, projection_head = snd get_vit_model,
               gmm_prompt = GMMPrompt (labelled_data a), stage_i = i, loaded = []\<rparr>
      | Some _ \<Rightarrow>
          (case torch_load fs (load_file a (i - 1) ''_model_best.pt'') of
             Inl e \<Rightarrow> Inl e
           | Inr m \<Rightarrow>
               (case torch_load fs (load_file a (i - 1) ''_proj_head_best.pt'') of
                  Inl e \<Rightarrow> Inl e
                | Inr h \<Rightarrow>
                    (case component_count a i of
                       Inl e \<Rightarrow> Inl e
                     | Inr K \<Rightarrow>
                         Inr \<lparr>model = m, projection_head = h, gmm_prompt = GMMPrompt K,
                              stage_i = i,
                              loaded = [load_file a (i - 1) ''_model_best.pt'',
                                        load_file a (i - 1) ''_proj_head_best.pt'']\<rparr>))))"


section \<open>Tensor operations used by the kernels\<close>

text \<open>
  A matrix is the list of its rows. The operations below follow the library calls of the
  source: boolean-mask indexing returns the selected entries in row-major order and fails
  on a shape mismatch; \<^verbatim>\<open>x.view(r, -1)\<close> cuts a flat tensor into \<open>r\<close> rows and fails when
  \<open>r\<close> is zero or does not divide the number of elements.
\<close>

definition bind_err :: "error + 'a \<Rightarrow> ('a \<Rightarrow> error + 'b) \<Rightarrow> error + 'b" where
  "bind_err r f = (case r of Inl e \<Rightarrow> Inl e | Inr x \<Rightarrow> f x)"

definition py_index :: "'a list \<Rightarrow> int \<Rightarrow> error + 'a" where
  \<comment> \<open>indexing a Python list: \<open>xs[i]\<close> and, from the end, \<open>xs[-k]\<close>\<close>
  "py_index xs i =
     (if 0 \<le> i \<and> i < int (length xs) then Inr (xs ! nat i)
      else if i < 0 \<and> - int (length xs) \<le> i then Inr (xs ! nat (int (length xs) + i))
      else Inl IndexError)"

definition select_row :: "'a list \<Rightarrow> bool list \<Rightarrow> 'a list" where
  "select_row xs ms = map fst (filter snd (zip xs ms))"

definition bool_index :: "'a list \<Rightarrow> bool list \<Rightarrow> error + 'a list" where
  \<comment> \<open>\<^verbatim>\<open>x[m]\<close> for a boolean mask over the first dimension\<close>
  "bool_index xs ms = (if length ms \<noteq> length xs then Inl IndexError else Inr (select_row xs ms))"

definition masked_select :: "'a list list \<Rightarrow> bool list list \<Rightarrow> error + 'a list" where
  \<comment> \<open>\<^verbatim>\<open>x[m]\<close> for a boolean mask of the shape of the matrix \<open>x\<close>\<close>
  "masked_select x m =
     (if length m \<noteq> length x \<or> map length m \<noteq> map length x then Inl IndexError
      else Inr (concat (map2 select_row x m)))"

definition view_rows :: "nat \<Rightarrow> 'a list \<Rightarrow> error + 'a list list" where
  \<comment> \<open>\<^verbatim>\<open>x.view(r, -1)\<close> on the flat tensor \<open>x\<close>\<close>
  "view_rows r x =
     (if r = 0 \<or> length x mod r \<noteq> 0 then Inl RuntimeError
      else let k = length x div r in Inr (map (\<lambda>i. take k (drop (i * k) x)) [0..<r]))"

definition invert :: "bool list list \<Rightarrow> bool list list" where
  "invert m = map (map Not) m"

definition eye :: "nat \<Rightarrow> bool list list" where
  "eye n = map (\<lambda>i. map (\<lambda>j. i = j) [0..<n]) [0..<n]"

definition dot :: "real list \<Rightarrow> real list \<Rightarrow> real" where
  "dot x y = sum_list (map2 (*) x y)"

definition normalize :: "real list \<Rightarrow> real list" where
  \<comment> \<open>\<^verbatim>\<open>F.normalize\<close> of one row: \<open>x / max(\<parallel>x\<parallel>, eps)\<close> with \<open>eps = 1e-12\<close>\<close>
  "normalize x = map (\<lambda>a. a / max (sqrt (sum_list (map (\<lambda>b. b * b) x))) (1 / 10 ^ 12)) x"

definition matmul_T :: "real list list \<Rightarrow> real list list \<Rightarrow> real list list" where
  \<comment> \<open>\<^verbatim>\<open>torch.matmul(a, c.T)\<close>\<close>
  "matmul_T a c = map (\<lambda>x. map (\<lambda>y. dot x y) c) a"

section \<open>The unsupervised contrastive pair constructor: \<^verbatim>\<open>info_nce_logits\<close>\<close>

definition info_nce_logits ::
  "real list list \<Rightarrow> int \<Rightarrow> real \<Rightarrow> error + (fl list list \<times> nat list)" where
  \<comment> \<open>\<open>features\<close>, \<open>args.n_views\<close>, \<open>args.temperature\<close>. \<^verbatim>\<open>torch.arange(b_)\<close> with
      \<open>b_ = 0.5 * M\<close> has \<open>\<lceil>M / 2\<rceil>\<close> entries; \<^verbatim>\<open>torch.cat\<close> of no tensors fails.\<close>
  "info_nce_logits features nv t =
     (if nv \<le> 0 then Inl RuntimeError
      else
        let lab = concat (replicate (nat nv) [0..<(length features + 1) div 2]);
            labels = map (\<lambda>a. map (\<lambda>b. a = b) lab) lab;
            feats = map normalize features;
            similarity_matrix = matmul_T feats feats;
            diag = eye (length labels)
        in bind_err (masked_select labels (invert diag)) (\<lambda>sel.
           bind_err (view_rows (length labels) sel) (\<lambda>labels.
           bind_err (masked_select similarity_matrix (invert diag)) (\<lambda>sel.
           bind_err (view_rows (length similarity_matrix) sel) (\<lambda>similarity_matrix.
           bind_err (masked_select similarity_matrix labels) (\<lambda>sel.
           bind_err (view_rows (length labels) sel) (\<lambda>positives.
           bind_err (masked_select similarity_matrix (invert labels)) (\<lambda>sel.
           bind_err (view_rows (length similarity_matrix) sel) (\<lambda>negatives.
             if length positives \<noteq> length negatives then Inl RuntimeError
             else
               let logits = map2 (@) positives negatives
               in Inr (map (map (\<lambda>x. fl_div x t)) logits, replicate (length logits) 0))))))))))"


section \<open>The supervised contrastive loss kernel: \<^verbatim>\<open>SupConLoss.forward\<close>\<close>

text \<open>
  The feature tensor keeps its shape, since the kernel inspects the number of dimensions:
  \<open>flat\<close> holds the entries in row-major order. Labels are given by their entries in
  row-major order (the kernel flattens them), an explicit mask as a matrix.
\<close>

datatype tensor = Tensor (shape: "nat list") (flat: "real list")

record supcon =
  sc_temperature :: real
  contrast_mode :: string
  base_temperature :: real

definition SupConLoss :: supcon where
  \<comment> \<open>the defaults of the constructor\<close>
  "SupConLoss = \<lparr>sc_temperature = 7 / 100, contrast_mode = ''all'', base_temperature = 7 / 100\<rparr>"

definition view3 :: "tensor \<Rightarrow> error + tensor" where
  \<comment> \<open>lines 194 to 198: the rank check and \<^verbatim>\<open>features.view(shape[0], shape[1], -1)\<close>\<close>
  "view3 features =
     (if length (shape features) < 3 then Inl ValueError
      else if length (shape features) > 3 then
        (let B = shape features ! 0; V = shape features ! 1
         in if B * V = 0 then Inl RuntimeError
            else Inr (Tensor [B, V, length (flat features) div (B * V)] (flat features)))
      else Inr features)"

definition sample_mask ::
  "nat \<Rightarrow> int list option \<Rightarrow> real list list option \<Rightarrow> error + real list list" where
  \<comment> \<open>lines 201 to 211\<close>
  "sample_mask batch_size labels msk =
     (if labels \<noteq> None \<and> msk \<noteq> None then Inl ValueError
      else if labels = None \<and> msk = None then
        Inr (map (map (\<lambda>b. if b then 1 else 0)) (eye batch_size))
      else if labels \<noteq> None then
        (let ls = the labels
         in if length ls \<noteq> batch_size then Inl ValueError
            else Inr (map (\<lambda>a. map (\<lambda>b. if a = b then 1 else 0) ls) ls))
      else Inr (the msk))"

definition feature_at :: "tensor \<Rightarrow> nat \<Rightarrow> nat \<Rightarrow> real list" where
  \<comment> \<open>\<^verbatim>\<open>features[b, v]\<close> of a tensor of shape \<open>[B, V, D]\<close>\<close>
  "feature_at features b v =
     (let V = shape features ! 1; D = shape features ! 2
      in take D (drop ((b * V + v) * D) (flat features)))"

definition contrast_feature :: "tensor \<Rightarrow> error + real list list" where
  \<comment> \<open>\<^verbatim>\<open>torch.cat(torch.unbind(features, dim=1), dim=0)\<close>: view after view\<close>
  "contrast_feature features =
     (let B = shape features ! 0; V = shape features ! 1
      in if V = 0 then Inl RuntimeError
         else Inr (concat (map (\<lambda>v. map (\<lambda>b. feature_at features b v) [0..<B]) [0..<V])))"

definition anchors :: "string \<Rightarrow> tensor \<Rightarrow> real list list \<Rightarrow> error + (real list list \<times> nat)" where
  \<comment> \<open>lines 215 to 222: the anchor features and \<open>anchor_count\<close>\<close>
  "anchors mode features cf =
     (if mode = ''one'' then Inr (map (\<lambda>b. feature_at features b 0) [0..<shape features ! 0], 1)
      else if mode = ''all'' then Inr (cf, shape features ! 1)
      else Inl ValueError)"

definition tile :: "real list list \<Rightarrow> nat \<Rightarrow> nat \<Rightarrow> real list list" where
  \<comment> \<open>\<^verbatim>\<open>mask.repeat(a, c)\<close>\<close>
  "tile m a c = concat (replicate a (map (\<lambda>row. concat (replicate c row)) m))"

definition logits_mask :: "nat \<Rightarrow> nat \<Rightarrow> real list list" where
  \<comment> \<open>ones with a zero scattered at column \<open>r\<close> of each row \<open>r\<close>\<close>
  "logits_mask rows cols = map (\<lambda>r. map (\<lambda>c. if c = r then 0 else 1) [0..<cols]) [0..<rows]"

definition times :: "real list list \<Rightarrow> real list list \<Rightarrow> real list list" where
  "times x y = map2 (\<lambda>r s. map2 (*) r s) x y"

definition stable_logits ::
  "real \<Rightarrow> real list list \<Rightarrow> real list list \<Rightarrow> real list list option" where
  \<comment> \<open>lines 225 to 231: \<open>anchor \<cdot> contrast / temperature\<close>, less the maximum of the row.
      At temperature 0 every entry of the quotient is an infinity or a NaN, and the entry
      at the maximum of a row less that maximum is a NaN: there are no logits (\<open>None\<close>).\<close>
  "stable_logits t anchor cf =
     (if t = 0 then None
      else Some (map (\<lambda>row. map (\<lambda>x. x - Max (set row)) row)
                     (map (map (\<lambda>x. x / t)) (matmul_T anchor cf))))"

definition positive_mask :: "real list list \<Rightarrow> nat \<Rightarrow> nat \<Rightarrow> real list list" where
  \<comment> \<open>lines 234 to 242: the tiled mask with the self-contrast entries zeroed\<close>
  "positive_mask msk anchor_count contrast_count =
     times (tile msk anchor_count contrast_count)
           (logits_mask (length msk * anchor_count) (length msk * contrast_count))"

definition exp_logits :: "real list list \<Rightarrow> nat \<Rightarrow> nat \<Rightarrow> real list list" where
  \<comment> \<open>line 245\<close>
  "exp_logits logits rows cols = times (map (map exp) logits) (logits_mask rows cols)"

definition mean_log_prob_pos :: "real list list \<Rightarrow> real list list \<Rightarrow> real list list \<Rightarrow> fl list" where
  \<comment> \<open>lines 246 to 249, per anchor row: \<open>m\<close> is the row of the positive mask, \<open>l\<close> of
      the logits, \<open>e\<close> of \<open>exp_logits\<close>. The logarithm of a zero sum and the division by a
      zero count of positives give an infinity or a NaN.\<close>
  "mean_log_prob_pos pmask logits elogits =
     map (\<lambda>(m, l, e).
            if sum_list e \<le> 0 \<or> sum_list m = 0 then NonFinite
            else Finite (sum_list (map2 (*) m (map (\<lambda>x. x - ln (sum_list e)) l)) / sum_list m))
         (zip pmask (zip logits elogits))"

definition scale :: "real \<Rightarrow> fl \<Rightarrow> fl" where
  "scale c x = (case x of Finite r \<Rightarrow> Finite (c * r) | NonFinite \<Rightarrow> NonFinite)"

definition well_shaped :: "real list list \<Rightarrow> nat \<Rightarrow> bool" where
  "well_shaped msk batch_size \<longleftrightarrow>
     length msk = batch_size \<and> (\<forall>row \<in> set msk. length row = batch_size)"

definition SupConLoss_forward ::
  "supcon \<Rightarrow> tensor \<Rightarrow> int list option \<Rightarrow> real list list option \<Rightarrow> error + fl" where
  \<comment> \<open>\<^verbatim>\<open>torch.max\<close> over an empty dimension raises IndexError; a mask that is not
      \<open>[bsz, bsz]\<close> fails in the scatter or in the broadcast of line 242 or 245;
      line 252 is a division of Python floats, which raises on a zero divisor\<close>
  "SupConLoss_forward self features0 labels msk0 =
     bind_err (view3 features0) (\<lambda>features.
       let batch_size = shape features ! 0 in
     bind_err (sample_mask batch_size labels msk0) (\<lambda>msk.
       let contrast_count = shape features ! 1 in
     bind_err (contrast_feature features) (\<lambda>cf.
     bind_err (anchors (contrast_mode self) features cf) (\<lambda>(anchor_feature, anchor_count).
       if batch_size * contrast_count = 0 then Inl IndexError
       else if \<not> well_shaped msk batch_size then Inl RuntimeError
       else if base_temperature self = 0 then Inl ZeroDivisionError
       else
         (case stable_logits (sc_temperature self) anchor_feature cf of
            None \<Rightarrow> Inr NonFinite
          | Some logits \<Rightarrow>
              let pmask = positive_mask msk anchor_count contrast_count;
                  elogits = exp_logits logits (batch_size * anchor_count)
                              (batch_size * contrast_count);
                  mlpp = mean_log_prob_pos pmask logits elogits;
                  loss = map (scale (- (sc_temperature self / base_temperature self))) mlpp
              in Inr (fl_mean loss))))))"


section \<open>The stage trainer: \<^verbatim>\<open>PromptCCD_Model.fit\<close>\<close>

text \<open>
  The backbone, the projection head, the mixture prompt, the optimiser with its schedule, the
  cross-entropy reduction, the evaluation and the data loaders are collaborators, given as
  functions: \<open>'o\<close> is the state of the optimiser, \<open>'c\<close> the conditioning context that the
  mixture prompt predicts, \<open>'i\<close> an image. The loader of contrastive views yields its batches
  per epoch. A batch carries the list of views, the class labels and the first column of the
  labelled mask as booleans. The running meters of loss and accuracy are not modelled.
\<close>

record 'i batch =
  images :: "'i list list"
  class_labels :: "int list"
  mask_lab :: "bool list"

record ('p, 'g, 'o, 'c, 'i) env =
  gmm_fit :: "'g \<Rightarrow> 'p \<Rightarrow> int \<Rightarrow> 'g"
  gmm_predict :: "'g \<Rightarrow> real list list \<Rightarrow> 'c"
  backbone :: "'p \<Rightarrow> 'i list \<Rightarrow> int \<Rightarrow> 'c option \<Rightarrow> real list list"
  head :: "'p \<Rightarrow> real list list \<Rightarrow> real list list"
  cross_entropy :: "fl list list \<Rightarrow> nat list \<Rightarrow> error + fl"
  new_optimizer :: "'p \<times> 'p \<Rightarrow> 'o"
  sgd_step :: "'o \<Rightarrow> 'p \<times> 'p \<Rightarrow> 'i batch \<Rightarrow> 'c option \<Rightarrow> 'o \<times> 'p \<times> 'p"
  scheduler_step :: "'o \<Rightarrow> 'o"
  eval_kmeans :: "'p \<Rightarrow> 'g \<Rightarrow> int \<Rightarrow> int \<Rightarrow> real"
  contrast_loader :: "int \<Rightarrow> 'i batch list"

text \<open>
  The log records what the trainer did, each entry written where the source makes the call:
  a refit of the mixture, a batch step with the context passed to the gradient-tracked
  forward and the total loss, an evaluation gate with the accuracy on the old classes and
  the files it saved, in order.
\<close>

datatype 'c event =
  Refit int
  | Step int "'c option" fl
  | Gate int real "string list"

record ('p, 'g, 'o, 'c) run =
  r_model :: 'p
  r_head :: 'p
  r_gmm :: 'g
  r_opt :: 'o
  res :: "'c option"
  best_test_acc_lab :: real
  files :: "'p store"
  log :: "'c event list"

fun foldM :: "('s \<Rightarrow> 'x \<Rightarrow> error + 's) \<Rightarrow> 's \<Rightarrow> 'x list \<Rightarrow> error + 's" where
  "foldM f s [] = Inr s"
| "foldM f s (x # xs) = bind_err (f s x) (\<lambda>s'. foldM f s' xs)"

definition chunk2 :: "'a list \<Rightarrow> 'a list list" where
  \<comment> \<open>\<^verbatim>\<open>x.chunk(2)\<close>: pieces of \<open>\<lceil>M / 2\<rceil>\<close> rows; two empty pieces when there are no rows\<close>
  "chunk2 xs =
     (let s = (length xs + 1) div 2
      in if xs = [] then [[], []]
         else if s < length xs then [take s xs, drop s xs]
         else [xs])"

definition index_chunks :: "'a list \<Rightarrow> bool list \<Rightarrow> error + ('a list \<times> 'a list)" where
  \<comment> \<open>\<^verbatim>\<open>f1, f2 = [f[m] for f in features.chunk(2)]\<close>: unpacking one piece is a ValueError\<close>
  "index_chunks features m =
     (case chunk2 features of
        [c1, c2] \<Rightarrow>
          bind_err (bool_index c1 m) (\<lambda>f1. bind_err (bool_index c2 m) (\<lambda>f2. Inr (f1, f2)))
      | [c1] \<Rightarrow> bind_err (bool_index c1 m) (\<lambda>_. Inl ValueError)
      | _ \<Rightarrow> Inl ValueError)"

definition con_feats :: "args \<Rightarrow> real list list \<Rightarrow> bool list \<Rightarrow> error + real list list" where
  \<comment> \<open>lines 96 to 102\<close>
  "con_feats a features m =
     (if contrast_unlabel_only a then
        bind_err (index_chunks features (map Not m)) (\<lambda>(f1, f2). Inr (f1 @ f2))
      else Inr features)"

definition cols :: "'a list list \<Rightarrow> nat" where
  \<comment> \<open>the second dimension of a matrix, 0 when it has no rows\<close>
  "cols m = (case m of [] \<Rightarrow> 0 | r # _ \<Rightarrow> length r)"

definition stack_views :: "nat \<Rightarrow> real list list \<Rightarrow> real list list \<Rightarrow> tensor" where
  \<comment> \<open>\<^verbatim>\<open>torch.cat([f1.unsqueeze(1), f2.unsqueeze(1)], dim=1)\<close> for as many rows in both\<close>
  "stack_views D f1 f2 = Tensor [length f1, 2, D] (concat (map2 (@) f1 f2))"

definition sup_con_term ::
  "real \<Rightarrow> real list list \<Rightarrow> int list \<Rightarrow> bool list \<Rightarrow> error + fl" where
  \<comment> \<open>lines 108 to 114, with \<open>w = sup_con_weight[stage_i]\<close>\<close>
  "sup_con_term w features labels m =
     (if w > 0 then
        bind_err (index_chunks features m) (\<lambda>(f1, f2).
          if length f1 \<noteq> length f2 then Inl RuntimeError
          else bind_err (bool_index labels m) (\<lambda>sup_con_labels.
            SupConLoss_forward SupConLoss (stack_views (cols features) f1 f2)
              (Some sup_con_labels) None))
      else Inr (Finite 0))"

definition total_loss :: "real \<Rightarrow> fl \<Rightarrow> fl \<Rightarrow> fl" where
  \<comment> \<open>line 117\<close>
  "total_loss w contrastive_loss sup_con_loss =
     (case (contrastive_loss, sup_con_loss) of
        (Finite c, Finite s) \<Rightarrow> Finite ((1 - w) * c + w * s)
      | _ \<Rightarrow> NonFinite)"

definition batch_loss ::
  "('p, 'g, 'o, 'c, 'i) env \<Rightarrow> args \<Rightarrow> int \<Rightarrow> real list list \<Rightarrow> int list \<Rightarrow> bool list
     \<Rightarrow> error + fl" where
  \<comment> \<open>lines 95 to 117, on the normalised output of the projection head\<close>
  "batch_loss E a stage features labels m =
     bind_err (con_feats a features m) (\<lambda>cf.
     bind_err (info_nce_logits cf (n_views a) (temperature a)) (\<lambda>(contrastive_logits, contrastive_labels).
     bind_err (cross_entropy E contrastive_logits contrastive_labels) (\<lambda>contrastive_loss.
     bind_err (py_index (sup_con_weight a) stage) (\<lambda>w.
     bind_err (sup_con_term w features labels m) (\<lambda>sup_con_loss.
       Inr (total_loss w contrastive_loss sup_con_loss))))))"

definition batch_step ::
  "('p, 'g, 'o, 'c, 'i) env \<Rightarrow> args \<Rightarrow> int \<Rightarrow> int \<Rightarrow> ('p, 'g, 'o, 'c) run \<Rightarrow> 'i batch
     \<Rightarrow> error + ('p, 'g, 'o, 'c) run" where
  \<comment> \<open>lines 73 to 127; the first call of the backbone is the one under \<^verbatim>\<open>torch.no_grad()\<close>\<close>
  "batch_step E a stage epoch st b =
     (if images b = [] then Inl RuntimeError
      else
        let imgs = concat (images b);
            res' = (if epoch \<ge> fit_gmm_every_n_epoch a
                    then Some (gmm_predict E (r_gmm st) (backbone E (r_model st) imgs stage None))
                    else res st);
            output = backbone E (r_model st) imgs stage res';
            features = map normalize (head E (r_head st) output)
        in bind_err (batch_loss E a stage features (class_labels b) (mask_lab b)) (\<lambda>loss.
             let (opt, m, h) = sgd_step E (r_opt st) (r_model st, r_head st) b res'
             in Inr (st\<lparr>r_model := m, r_head := h, r_opt := opt, res := res',
                        log := log st @ [Step epoch res' loss]\<rparr>)))"

definition eval_gate ::
  "('p, 'g, 'o, 'c, 'i) env \<Rightarrow> args \<Rightarrow> int \<Rightarrow> int \<Rightarrow> ('p, 'g, 'o, 'c) run
     \<Rightarrow> ('p, 'g, 'o, 'c) run" where
  \<comment> \<open>lines 133 to 152\<close>
  "eval_gate E a stage epoch st =
     (let old_acc_test = eval_kmeans E (r_model st) (r_gmm st) stage epoch;
          latest = [save_file a stage ''_model.pt'', save_file a stage ''_model_proj_head.pt''];
          fs = (files st)(save_file a stage ''_model.pt'' \<mapsto> r_model st,
                          save_file a stage ''_model_proj_head.pt'' \<mapsto> r_head st)
      in if old_acc_test > best_test_acc_lab st then
           st\<lparr>files := fs(save_file a stage ''_model_best.pt'' \<mapsto> r_model st,
                           save_file a stage ''_proj_head_best.pt'' \<mapsto> r_head st),
              best_test_acc_lab := old_acc_test,
              log := log st @ [Gate epoch old_acc_test
                       (latest @ [save_file a stage ''_model_best.pt'',
                                  save_file a stage ''_proj_head_best.pt''])]\<rparr>
         else
           st\<lparr>files := fs, log := log st @ [Gate epoch old_acc_test latest]\<rparr>)"

definition epoch_step ::
  "('p, 'g, 'o, 'c, 'i) env \<Rightarrow> args \<Rightarrow> int \<Rightarrow> ('p, 'g, 'o, 'c) run \<Rightarrow> int
     \<Rightarrow> error + ('p, 'g, 'o, 'c) run" where
  \<comment> \<open>the body of the loop over epochs, lines 62 to 152; \<^verbatim>\<open>%\<close> raises on a zero divisor\<close>
  "epoch_step E a stage st epoch =
     (if fit_gmm_every_n_epoch a = 0 then Inl ZeroDivisionError
      else
        let st1 = (if epoch mod fit_gmm_every_n_epoch a = 0
                   then st\<lparr>r_gmm := gmm_fit E (r_gmm st) (r_model st) stage,
                           log := log st @ [Refit epoch]\<rparr>
                   else st)
        in bind_err (foldM (batch_step E a stage epoch) st1 (contrast_loader E epoch)) (\<lambda>st2.
             let st3 = st2\<lparr>r_opt := scheduler_step E (r_opt st2)\<rparr>
             in if eval_every_n_epoch a = 0 then Inl ZeroDivisionError
                else if epoch mod eval_every_n_epoch a = 0 then Inr (eval_gate E a stage epoch st3)
                else Inr st3))"

definition start :: "('p, 'g, 'o, 'c, 'i) env \<Rightarrow> ('p, 'g) trainer \<Rightarrow> 'p store \<Rightarrow> ('p, 'g, 'o, 'c) run" where
  \<comment> \<open>lines 43 to 58\<close>
  "start E self fs =
     \<lparr>r_model = model self, r_head = projection_head self, r_gmm = gmm_prompt self,
      r_opt = new_optimizer E (projection_head self, model self),
      res = None, best_test_acc_lab = 0, files = fs, log = []\<rparr>"

definition fit ::
  "('p, 'g, 'o, 'c, 'i) env \<Rightarrow> args \<Rightarrow> ('p, 'g) trainer \<Rightarrow> 'p store
     \<Rightarrow> error + ('p, 'g, 'o, 'c) run" where
  "fit E a self fs =
     foldM (epoch_step E a (stage_i self)) (start E self fs) (map int [0..<nat (epochs a)])"

subsection \<open>Reading the log\<close>

fun gate_of :: "'c event \<Rightarrow> (real \<times> string list) list" where
  "gate_of (Gate e acc fs) = [(acc, fs)]"
| "gate_of (Refit e) = []"
| "gate_of (Step e ctx l) = []"

definition gates :: "'c event list \<Rightarrow> (real \<times> string list) list" where
  \<comment> \<open>the evaluation gates of a log in order: accuracy and saved files\<close>
  "gates evs = concat (map gate_of evs)"

definition is_prediction :: "('p, 'g, 'o, 'c, 'i) env \<Rightarrow> int \<Rightarrow> 'c option \<Rightarrow> bool" where
  \<comment> \<open>a context predicted by the mixture prompt from features of the backbone computed
      with no context\<close>
  "is_prediction E stage ctx \<longleftrightarrow>
     (\<exists>g m imgs. ctx = Some (gmm_predict E g (backbone E m imgs stage None)))"

definition context_ok ::
  "('p, 'g, 'o, 'c, 'i) env \<Rightarrow> args \<Rightarrow> int \<Rightarrow> 'c event list \<Rightarrow> bool" where
  \<comment> \<open>what the log may say about contexts and refits\<close>
  "context_ok E a stage evs \<longleftrightarrow>
     (\<forall>e ctx l. Step e ctx l \<in> set evs \<longrightarrow>
        (if e \<ge> fit_gmm_every_n_epoch a then is_prediction E stage ctx else ctx = None))
     \<and> (\<forall>e. Refit e \<in> set evs \<longrightarrow> e mod fit_gmm_every_n_epoch a = 0)"

definition latest_files :: "args \<Rightarrow> int \<Rightarrow> string list" where
  "latest_files a i = [save_file a i ''_model.pt'', save_file a i ''_model_proj_head.pt'']"

definition best_files :: "args \<Rightarrow> int \<Rightarrow> string list" where
  "best_files a i = [save_file a i ''_model_best.pt'', save_file a i ''_proj_head_best.pt'']"

definition tracked :: "args \<Rightarrow> int \<Rightarrow> real \<Rightarrow> (real \<times> string list) list \<Rightarrow> bool" where
  \<comment> \<open>the tracker is the greatest accuracy so far, or 0, and a gate saved the best files
      exactly when its accuracy was above 0 and above every earlier one\<close>
  "tracked a stage best gs \<longleftrightarrow>
     0 \<le> best \<and> (\<forall>x\<in>set gs. fst x \<le> best) \<and> best \<in> insert 0 (fst ` set gs)
     \<and> (\<forall>k<length gs. snd (gs ! k) =
           latest_files a stage @
             (if 0 < fst (gs ! k) \<and> (\<forall>j<k. fst (gs ! j) < fst (gs ! k))
              then best_files a stage else []))"

subsection \<open>Pairs of views\<close>

definition cos_sim :: "real list \<Rightarrow> real list \<Rightarrow> real" where
  "cos_sim x y = dot (normalize x) (normalize y)"

definition partner :: "nat \<Rightarrow> nat \<Rightarrow> nat" where
  \<comment> \<open>the index of the other view of the same sample among \<open>2 * N\<close> rows\<close>
  "partner N i = (i + N) mod (2 * N)"

section \<open>Example configurations\<close>

definition example_args :: args where
  "example_args =
     \<lparr>save_path = ''out'', ccd_model = ''m'', labelled_data = 50, classes = 100, n_stage = 5,
      set_k_half = False, epochs = 1, fit_gmm_every_n_epoch = 1, eval_every_n_epoch = 1,
      contrast_unlabel_only = True, sup_con_weight = [0], n_views = 2, temperature = 1\<rparr>"

text \<open>
  A run with trivial collaborators: one sample per batch in two views, a backbone that maps
  every image to the feature \<open>[1]\<close>, a cross entropy that is always 2, and an evaluation
  whose accuracy on the old classes is \<open>0.1, 0.05, 0.3, 0.2, 0.4\<close> in epochs 0 to 4.
\<close>

definition example_batch :: "unit batch" where
  "example_batch = \<lparr>images = [[()], [()]], class_labels = [3], mask_lab = [False]\<rparr>"

definition example_acc :: "int \<Rightarrow> real" where
  "example_acc e = (if e = 0 then 1 / 10 else if e = 1 then 1 / 20
                    else if e = 2 then 3 / 10 else if e = 3 then 1 / 5 else 2 / 5)"

definition example_env :: "(unit, unit, unit, nat, unit) env" where
  "example_env =
     \<lparr>gmm_fit = (\<lambda>g m s. g), gmm_predict = (\<lambda>g f. 7),
      backbone = (\<lambda>p imgs s ctx. map (\<lambda>_. [1]) imgs), head = (\<lambda>p x. x),
      cross_entropy = (\<lambda>l t. Inr (Finite 2)), new_optimizer = (\<lambda>_. ()),
      sgd_step = (\<lambda>opt p b ctx. ((), (), ())), scheduler_step = (\<lambda>opt. opt),
      eval_kmeans = (\<lambda>m g s. example_acc),
      contrast_loader = (\<lambda>e. [example_batch])\<rparr>"

definition example_trainer :: "(unit, unit) trainer" where
  "example_trainer =
     \<lparr>model = (), projection_head = (), gmm_prompt = (), stage_i = 0, loaded = []\<rparr>"

section \<open>Verified properties\<close>

subsection \<open>Checkpoint paths\<close>

lemma str_nat_nonempty: "str_nat n \<noteq> []"
  by (subst str_nat.simps) simp

lemma load_file_save_file: "load_file a i s = save_file a i s"
  by (simp add: load_file_def save_file_def model_path_def path_join_def)

lemma hd_stage_file:
  "stage_file a i s \<noteq> [] \<and> hd (stage_file a i s) = hd (stage_file a i s')"
  by (cases "ccd_model a") (simp_all add: stage_file_def)

lemma save_file_inject: "save_file a i s = save_file a i s' \<longleftrightarrow> s = s'"
proof -
  have n: "stage_file a i s \<noteq> []" "stage_file a i s' \<noteq> []"
    and h: "hd (stage_file a i s) = hd (stage_file a i s')"
    using hd_stage_file by blast+
  show ?thesis
    using n h
    by (auto simp: save_file_def path_join_def join2_def) (auto simp: stage_file_def)
qed

lemma save_file_plain:
  assumes "save_path a \<noteq> []" "last (save_path a) \<noteq> CHR ''/''"
    and "ccd_model a = [] \<or> hd (ccd_model a) \<noteq> CHR ''/''"
  shows "save_file a i s = save_path a @ ''/model/'' @ ccd_model a @ ''_stage_'' @ str_int i @ s"
proof -
  have "model_path a = save_path a @ ''/model''"
    using assms by (simp add: model_path_def path_join_def join2_def)
  moreover have "hd (stage_file a i s) \<noteq> CHR ''/''"
    using assms(3) by (cases "ccd_model a") (auto simp: stage_file_def)
  ultimately show ?thesis
    by (simp add: save_file_def path_join_def join2_def stage_file_def)
qed

subsection \<open>The component count of a stage\<close>

text \<open>
  Claim C1, as amended. With a previous model and a non-zero number of stages, the lifecycle
  manager computes \<open>K = labelled_data + stage_i * ((classes - labelled_data) div n_stage)\<close>:
  the quotient is taken first, then multiplied by the stage index, and \<open>K\<close> is halved by
  integer division when \<open>set_k_half\<close> is set. This is the value handed to the constructor of
  the mixture prompt. It equals the formula of the specification whenever \<open>n_stage\<close> divides
  \<open>classes - labelled_data\<close>; for 50 labelled classes of 100, 5 stages and stage 2 it is 70,
  and 35 when halved.
\<close>

theorem component_count_formula:
  assumes "n_stage a \<noteq> 0"
  shows "component_count a i =
           Inr (let K = labelled_data a + i * ((classes a - labelled_data a) div n_stage a)
                in if set_k_half a then K div 2 else K)
         \<and> (n_stage a dvd classes a - labelled_data a \<longrightarrow>
              component_count a i = Inr (K_as_specified a i))
         \<and> (\<forall>gv G fs prev t. PromptCCD_Model_init gv G fs a (Some prev) i = Inr t \<longrightarrow>
              Inr (gmm_prompt t) = map_sum id G (component_count a i))"
proof (intro conjI allI impI)
  show "component_count a i =
          Inr (let K = labelled_data a + i * ((classes a - labelled_data a) div n_stage a)
               in if set_k_half a then K div 2 else K)"
    using assms by (simp add: component_count_def Let_def)
next
  assume d: "n_stage a dvd classes a - labelled_data a"
  then have "i * (classes a - labelled_data a) div n_stage a
               = i * ((classes a - labelled_data a) div n_stage a)"
    by (simp add: div_mult_swap)
  then show "component_count a i = Inr (K_as_specified a i)"
    using assms by (simp add: component_count_def K_as_specified_def Let_def)
next
  fix gv :: "'a \<times> 'a" and G :: "int \<Rightarrow> 'b" and fs prev t
  assume "PromptCCD_Model_init gv G fs a (Some prev) i = Inr t"
  then show "Inr (gmm_prompt t) = map_sum id G (component_count a i)"
    by (auto simp: PromptCCD_Model_init_def split: sum.splits)
qed

theorem component_count_formula_witness:
  "n_stage example_args \<noteq> 0
   \<and> component_count example_args 2 = Inr 70
   \<and> component_count (example_args\<lparr>set_k_half := True\<rparr>) 2 = Inr 35"
proof -
  have h: "n_stage example_args \<noteq> 0" "n_stage (example_args\<lparr>set_k_half := True\<rparr>) \<noteq> 0"
    by (simp_all add: example_args_def)
  show ?thesis
    using h(1) component_count_formula [OF h(1), of 2, THEN conjunct1]
      component_count_formula [OF h(2), of 2, THEN conjunct1]
    by (simp add: example_args_def)
qed

text \<open>
  With 4 stages instead of 5 the quotient \<open>50 div 4\<close> is rounded before it is doubled: the
  code gives 74 where the formula of the specification gives 75.
\<close>

theorem component_count_counterexample:
  "component_count (example_args\<lparr>n_stage := 4\<rparr>) 2 = Inr 74
   \<and> K_as_specified (example_args\<lparr>n_stage := 4\<rparr>) 2 = 75"
  by (simp add: component_count_def K_as_specified_def example_args_def)

subsection \<open>The loops of the trainer\<close>


lemma bind_err_Inr_iff: "bind_err r f = Inr y \<longleftrightarrow> (\<exists>x. r = Inr x \<and> f x = Inr y)"
  by (cases r) (simp_all add: bind_err_def)

lemma foldM_invariant:
  assumes "foldM f s xs = Inr t" and "P s"
    and "\<And>u x v. P u \<Longrightarrow> f u x = Inr v \<Longrightarrow> P v"
  shows "P t"
  using assms(1,2)
proof (induction xs arbitrary: s)
  case Nil
  then show ?case by simp
next
  case (Cons x xs)
  from Cons.prems(1) obtain v where v: "f s x = Inr v" "foldM f v xs = Inr t"
    by (auto simp: bind_err_Inr_iff)
  from assms(3) [OF Cons.prems(2) v(1)] have "P v" .
  with Cons.IH v(2) show ?case by blast
qed

lemma foldM_trace:
  assumes "foldM f s xs = Inr t" and "P [] s"
    and "\<And>ys x u v. P ys u \<Longrightarrow> f u x = Inr v \<Longrightarrow> P (ys @ [x]) v"
  shows "P xs t"
  using assms
proof (induction xs arbitrary: s P)
  case Nil
  then show ?case by simp
next
  case (Cons x xs)
  from Cons.prems(1) obtain v where v: "f s x = Inr v" "foldM f v xs = Inr t"
    by (auto simp: bind_err_Inr_iff)
  have "P (x # xs) t"
  proof (rule Cons.IH [of v "\<lambda>ys. P (x # ys)"])
    show "foldM f v xs = Inr t" by (rule v(2))
    show "P [x] v" using Cons.prems(3) [OF Cons.prems(2) v(1)] by simp
    show "P (x # ys @ [y]) w" if "P (x # ys) u" "f u y = Inr w" for ys y u w
      using Cons.prems(3) [OF that] by simp
  qed
  then show ?case .
qed

lemma gates_append: "gates (xs @ ys) = gates xs @ gates ys"
  by (simp add: gates_def)

lemma gates_steps:
  assumes "\<forall>ev\<in>set evs. \<exists>e ctx l. ev = Step e ctx l"
  shows "gates evs = []"
  using assms by (induction evs) (auto simp: gates_def)

lemma is_predictionI:
  "is_prediction E stage (Some (gmm_predict E g (backbone E m imgs stage None)))"
  unfolding is_prediction_def by blast

lemma batch_step_Inr:
  assumes "batch_step E a stage e st b = Inr st'"
  shows "\<exists>l. files st' = files st \<and> best_test_acc_lab st' = best_test_acc_lab st
           \<and> log st' = log st @ [Step e (res st') l]
           \<and> (if e \<ge> fit_gmm_every_n_epoch a then is_prediction E stage (res st')
               else res st' = res st)"
  using assms
  by (auto simp: batch_step_def Let_def bind_err_Inr_iff is_predictionI case_prod_beta
      split: if_splits)

lemma batches_Inr:
  assumes "foldM (batch_step E a stage e) st bs = Inr st'"
  shows "files st' = files st \<and> best_test_acc_lab st' = best_test_acc_lab st
         \<and> (\<not> e \<ge> fit_gmm_every_n_epoch a \<longrightarrow> res st' = res st)
         \<and> (\<exists>steps. log st' = log st @ steps
              \<and> (\<forall>ev\<in>set steps. \<exists>ctx l. ev = Step e ctx l
                    \<and> (if e \<ge> fit_gmm_every_n_epoch a then is_prediction E stage ctx
                        else ctx = res st)))"
    (is "?P st'")
proof (rule foldM_invariant [OF assms, where P = ?P])
  show "?P st" by simp
next
  fix u b v
  assume u: "?P u" and s: "batch_step E a stage e u b = Inr v"
  from u obtain steps where st: "log u = log st @ steps"
    "\<forall>ev\<in>set steps. \<exists>ctx l. ev = Step e ctx l
        \<and> (if e \<ge> fit_gmm_every_n_epoch a then is_prediction E stage ctx else ctx = res st)"
    by blast
  from batch_step_Inr [OF s] obtain l where
    v: "files v = files u" "best_test_acc_lab v = best_test_acc_lab u"
       "log v = log u @ [Step e (res v) l]"
       "if e \<ge> fit_gmm_every_n_epoch a then is_prediction E stage (res v) else res v = res u"
    by blast
  have "log v = log st @ (steps @ [Step e (res v) l])" using v(3) st(1) by simp
  moreover have "\<forall>ev\<in>set (steps @ [Step e (res v) l]). \<exists>ctx l. ev = Step e ctx l
        \<and> (if e \<ge> fit_gmm_every_n_epoch a then is_prediction E stage ctx else ctx = res st)"
    using st(2) v(4) u by (auto split: if_splits)
  ultimately show "?P v" using u v(1,2,4) by (auto split: if_splits)
qed

lemma epoch_step_Inr:
  assumes "epoch_step E a stage st e = Inr st'"
  obtains st3 steps where
    "files st3 = files st" "best_test_acc_lab st3 = best_test_acc_lab st"
    "log st3 = log st @ (if e mod fit_gmm_every_n_epoch a = 0 then [Refit e] else []) @ steps"
    "\<forall>ev\<in>set steps. \<exists>ctx l. ev = Step e ctx l
        \<and> (if e \<ge> fit_gmm_every_n_epoch a then is_prediction E stage ctx else ctx = res st)"
    "\<not> e \<ge> fit_gmm_every_n_epoch a \<Longrightarrow> res st3 = res st"
    "st' = (if e mod eval_every_n_epoch a = 0 then eval_gate E a stage e st3 else st3)"
    "fit_gmm_every_n_epoch a \<noteq> 0" "eval_every_n_epoch a \<noteq> 0"
proof -
  let ?st1 = "if e mod fit_gmm_every_n_epoch a = 0
              then st\<lparr>r_gmm := gmm_fit E (r_gmm st) (r_model st) stage, log := log st @ [Refit e]\<rparr>
              else st"
  from assms have nz: "fit_gmm_every_n_epoch a \<noteq> 0"
    by (auto simp: epoch_step_def split: if_splits)
  with assms obtain st2 where
    f: "foldM (batch_step E a stage e) ?st1 (contrast_loader E e) = Inr st2"
    and r: "(if eval_every_n_epoch a = 0 then Inl ZeroDivisionError
             else if e mod eval_every_n_epoch a = 0
                  then Inr (eval_gate E a stage e (st2\<lparr>r_opt := scheduler_step E (r_opt st2)\<rparr>))
                  else Inr (st2\<lparr>r_opt := scheduler_step E (r_opt st2)\<rparr>)) = Inr st'"
    by (auto simp: epoch_step_def Let_def bind_err_Inr_iff)
  from batches_Inr [OF f] obtain steps where
    b: "files st2 = files ?st1" "best_test_acc_lab st2 = best_test_acc_lab ?st1"
       "\<not> e \<ge> fit_gmm_every_n_epoch a \<longrightarrow> res st2 = res ?st1"
       "log st2 = log ?st1 @ steps"
       "\<forall>ev\<in>set steps. \<exists>ctx l. ev = Step e ctx l
          \<and> (if e \<ge> fit_gmm_every_n_epoch a then is_prediction E stage ctx else ctx = res ?st1)"
    by blast
  have r1: "res ?st1 = res st" by simp
  let ?st3 = "st2\<lparr>r_opt := scheduler_step E (r_opt st2)\<rparr>"
  show thesis
  proof (rule that [of ?st3 steps])
    show "files ?st3 = files st" using b(1) by simp
    show "best_test_acc_lab ?st3 = best_test_acc_lab st" using b(2) by simp
    show "log ?st3 = log st @ (if e mod fit_gmm_every_n_epoch a = 0 then [Refit e] else []) @ steps"
      using b(4) by simp
    show "\<forall>ev\<in>set steps. \<exists>ctx l. ev = Step e ctx l
        \<and> (if e \<ge> fit_gmm_every_n_epoch a then is_prediction E stage ctx else ctx = res st)"
      using b(5) unfolding r1 .
    show "res ?st3 = res st" if "\<not> e \<ge> fit_gmm_every_n_epoch a"
      using b(3) that unfolding r1 by simp
    show "st' = (if e mod eval_every_n_epoch a = 0 then eval_gate E a stage e ?st3 else ?st3)"
      using r by (auto split: if_splits)
    show "fit_gmm_every_n_epoch a \<noteq> 0" by (rule nz)
    show "eval_every_n_epoch a \<noteq> 0" using r by (auto split: if_splits)
  qed
qed

subsection \<open>The best-accuracy tracker\<close>


lemma eval_gate_log:
  "log (eval_gate E a stage e st) =
     log st @ [Gate e (eval_kmeans E (r_model st) (r_gmm st) stage e)
                 (latest_files a stage @
                   (if eval_kmeans E (r_model st) (r_gmm st) stage e > best_test_acc_lab st
                    then best_files a stage else []))]"
  by (simp add: eval_gate_def Let_def latest_files_def best_files_def)

lemma eval_gate_best:
  "best_test_acc_lab (eval_gate E a stage e st) =
     max (best_test_acc_lab st) (eval_kmeans E (r_model st) (r_gmm st) stage e)"
  by (simp add: eval_gate_def Let_def)

lemma eval_gate_files:
  "files (eval_gate E a stage e st) =
     (if eval_kmeans E (r_model st) (r_gmm st) stage e > best_test_acc_lab st
      then (files st)(save_file a stage ''_model.pt'' \<mapsto> r_model st,
                      save_file a stage ''_model_proj_head.pt'' \<mapsto> r_head st,
                      save_file a stage ''_model_best.pt'' \<mapsto> r_model st,
                      save_file a stage ''_proj_head_best.pt'' \<mapsto> r_head st)
      else (files st)(save_file a stage ''_model.pt'' \<mapsto> r_model st,
                      save_file a stage ''_model_proj_head.pt'' \<mapsto> r_head st))"
  by (simp add: eval_gate_def Let_def)

lemma gates_epoch:
  assumes "log st3 = log st @ (if c then [Refit e] else []) @ steps"
    and "\<forall>ev\<in>set steps. \<exists>ctx l. ev = Step e ctx l \<and> Q ctx"
  shows "gates (log st3) = gates (log st)"
proof -
  have "gates steps = []" using assms(2) by (intro gates_steps) blast
  then show ?thesis using assms(1) by (simp add: gates_append gates_def)
qed

lemma tracked_gate:
  assumes "tracked a stage best gs"
  shows "tracked a stage (max best acc)
           (gs @ [(acc, latest_files a stage @ (if acc > best then best_files a stage else []))])"
proof -
  from assms have b: "0 \<le> best" "\<forall>x\<in>set gs. fst x \<le> best" "best \<in> insert 0 (fst ` set gs)"
    and w: "\<forall>k<length gs. snd (gs ! k) =
           latest_files a stage @
             (if 0 < fst (gs ! k) \<and> (\<forall>j<k. fst (gs ! j) < fst (gs ! k))
              then best_files a stage else [])"
    by (auto simp: tracked_def)
  have iff: "acc > best \<longleftrightarrow> 0 < acc \<and> (\<forall>j<length gs. fst (gs ! j) < acc)"
  proof
    assume gt: "acc > best"
    have "fst (gs ! j) < acc" if "j < length gs" for j
    proof -
      have "fst (gs ! j) \<le> best" using b(2) that by simp
      with gt show ?thesis by simp
    qed
    with gt b(1) show "0 < acc \<and> (\<forall>j<length gs. fst (gs ! j) < acc)"
      by simp
  next
    assume r: "0 < acc \<and> (\<forall>j<length gs. fst (gs ! j) < acc)"
    from b(3) show "acc > best"
    proof
      assume "best = 0" with r show ?thesis by simp
    next
      assume "best \<in> fst ` set gs"
      then obtain j where "j < length gs" "best = fst (gs ! j)"
        by (auto simp: in_set_conv_nth)
      with r show ?thesis by simp
    qed
  qed
  let ?g = "(acc, latest_files a stage @ (if acc > best then best_files a stage else []))"
  have "snd ((gs @ [?g]) ! k) =
           latest_files a stage @
             (if 0 < fst ((gs @ [?g]) ! k) \<and> (\<forall>j<k. fst ((gs @ [?g]) ! j) < fst ((gs @ [?g]) ! k))
              then best_files a stage else [])" if "k < length (gs @ [?g])" for k
  proof (cases "k < length gs")
    case True
    then show ?thesis using w by (simp add: nth_append)
  next
    case False
    with that have "k = length gs" by simp
    then show ?thesis using iff by (simp add: nth_append)
  qed
  moreover have "0 \<le> max best acc" using b(1) by simp
  moreover have "\<forall>x\<in>set (gs @ [?g]). fst x \<le> max best acc" using b(2) by auto
  moreover have "max best acc \<in> insert 0 (fst ` set (gs @ [?g]))"
    using b(3) by (auto simp: max_def)
  ultimately show ?thesis unfolding tracked_def by blast
qed

lemma fit_tracked:
  assumes "fit E a self fs = Inr t"
  shows "tracked a (stage_i self) (best_test_acc_lab t) (gates (log t))"
proof (rule foldM_invariant [OF assms [unfolded fit_def],
      where P = "\<lambda>st. tracked a (stage_i self) (best_test_acc_lab st) (gates (log st))"])
  show "tracked a (stage_i self) (best_test_acc_lab (start E self fs)) (gates (log (start E self fs)))"
    by (simp add: start_def tracked_def gates_def)
next
  fix u e v
  assume u: "tracked a (stage_i self) (best_test_acc_lab u) (gates (log u))"
    and s: "epoch_step E a (stage_i self) u e = Inr v"
  from s show "tracked a (stage_i self) (best_test_acc_lab v) (gates (log v))"
  proof (rule epoch_step_Inr)
    fix st3 steps
    assume h: "best_test_acc_lab st3 = best_test_acc_lab u"
      "log st3 = log u @ (if e mod fit_gmm_every_n_epoch a = 0 then [Refit e] else []) @ steps"
      "\<forall>ev\<in>set steps. \<exists>ctx l. ev = Step e ctx l
        \<and> (if e \<ge> fit_gmm_every_n_epoch a then is_prediction E (stage_i self) ctx else ctx = res u)"
      "v = (if e mod eval_every_n_epoch a = 0 then eval_gate E a (stage_i self) e st3 else st3)"
    have g: "gates (log st3) = gates (log u)"
      by (rule gates_epoch [OF h(2,3)])
    show ?thesis
    proof (cases "e mod eval_every_n_epoch a = 0")
      case False
      then show ?thesis using h(1,4) g u by simp
    next
      case True
      then have v: "v = eval_gate E a (stage_i self) e st3" using h(4) by simp
      show ?thesis
        unfolding v eval_gate_best eval_gate_log gates_append g h(1)
        using tracked_gate [OF u] by (simp add: gates_def)
    qed
  qed
qed

subsection \<open>Rows of the pair constructor\<close>

lemma bind_err_Inr [simp]: "bind_err (Inr x) f = f x"
  by (simp add: bind_err_def)

lemma bind_err_Inl [simp]: "bind_err (Inl e) f = Inl e"
  by (simp add: bind_err_def)

lemma filter_single:
  assumes "distinct xs" "x \<in> set xs" "P x" "\<forall>y\<in>set xs. P y \<longrightarrow> y = x"
  shows "filter P xs = [x]"
  using assms
proof (induction xs)
  case Nil
  then show ?case by simp
next
  case (Cons a xs)
  show ?case
  proof (cases "a = x")
    case True
    have "x \<notin> set xs" using Cons.prems(1) True by simp
    then have "\<forall>y\<in>set xs. \<not> P y" using Cons.prems(4) by fastforce
    then have "filter P xs = []" by (simp add: filter_empty_conv)
    with True Cons.prems(3) show ?thesis by simp
  next
    case False
    then have "\<not> P a" using Cons.prems(4) by fastforce
    moreover have "filter P xs = [x]"
    proof (rule Cons.IH)
      show "distinct xs" using Cons.prems(1) by simp
      show "x \<in> set xs" using Cons.prems(2) False by simp
      show "P x" by (rule Cons.prems(3))
      show "\<forall>y\<in>set xs. P y \<longrightarrow> y = x" using Cons.prems(4) by simp
    qed
    ultimately show ?thesis by simp
  qed
qed

lemma zip_map_same: "zip (map a xs) (map b xs) = map (\<lambda>x. (a x, b x)) xs"
  by (induction xs) simp_all

lemma select_row_map: "select_row (map g js) (map p js) = map g (filter p js)"
  by (induction js) (simp_all add: select_row_def)

lemma masked_select_rows:
  "masked_select (map (\<lambda>i. map (g i) (J i)) is) (map (\<lambda>i. map (p i) (J i)) is)
     = Inr (concat (map (\<lambda>i. map (g i) (filter (p i) (J i))) is))"
  by (simp add: masked_select_def zip_map_same select_row_map comp_def)

lemma take_drop_concat:
  assumes "\<forall>xs\<in>set xss. length xs = k" "i < length xss"
  shows "take k (drop (i * k) (concat xss)) = xss ! i"
  using assms
proof (induction xss arbitrary: i)
  case Nil
  then show ?case by simp
next
  case (Cons x xss)
  then show ?case by (cases i) simp_all
qed

lemma length_concat_uniform:
  assumes "\<forall>xs\<in>set xss. length xs = k"
  shows "length (concat xss) = length xss * k"
  using assms by (induction xss) simp_all

lemma view_rows_concat:
  assumes "xss \<noteq> []" "\<forall>xs\<in>set xss. length xs = k"
  shows "view_rows (length xss) (concat xss) = Inr xss"
proof -
  have l: "length (concat xss) = length xss * k"
    by (rule length_concat_uniform [OF assms(2)])
  have p: "0 < length xss" using assms(1) by simp
  have "map (\<lambda>i. take k (drop (i * k) (concat xss))) [0..<length xss] = xss"
    by (rule nth_equalityI) (simp_all add: take_drop_concat [OF assms(2)])
  then show ?thesis using l p by (simp add: view_rows_def)
qed

lemma invert_rows:
  "invert (map (\<lambda>i. map (p i) (J i)) is) = map (\<lambda>i. map (\<lambda>j. \<not> p i j) (J i)) is"
  by (simp add: invert_def comp_def)

lemma eye_inverted: "invert (eye n) = map (\<lambda>i. map (\<lambda>j. i \<noteq> j) [0..<n]) [0..<n]"
  by (simp add: invert_def eye_def comp_def)

lemma square_by_index:
  "map (\<lambda>a. map (\<lambda>b. h a b) (map g [0..<n])) (map g [0..<n])
     = map (\<lambda>i. map (\<lambda>j. h (g i) (g j)) [0..<n]) [0..<n]"
  by (simp add: comp_def)

lemma mod_below_double:
  assumes "j < 2 * (N::nat)"
  shows "j mod N = (if j < N then j else j - N)"
proof (cases "j < N")
  case True
  then show ?thesis by simp
next
  case False
  then have "j mod N = (j - N) mod N" by (intro le_mod_geq) simp
  also have "\<dots> = j - N" using assms False by simp
  finally show ?thesis using False by simp
qed

lemma partner_eq:
  assumes "i < 2 * N"
  shows "partner N i = (if i < N then i + N else i - N)"
proof (cases "i < N")
  case True
  then show ?thesis by (simp add: partner_def)
next
  case False
  then have "(i + N) mod (2 * N) = (i + N - 2 * N) mod (2 * N)" by (intro le_mod_geq) simp
  also have "\<dots> = i - N" using assms False by simp
  finally show ?thesis using False by (simp add: partner_def)
qed

lemma same_sample_iff:
  assumes "i < 2 * N" "j < 2 * N"
  shows "i mod N = j mod N \<longleftrightarrow> j = i \<or> j = partner N i"
  using assms by (auto simp: mod_below_double partner_eq split: if_splits)

lemma labels_by_index:
  "concat (replicate (nat 2) [0..<(2 * N + 1) div 2]) = map (\<lambda>j. j mod N) [0..<2 * N]"
proof -
  have s: "[0..<N + N] = [0..<N] @ [N..<N + N]"
    by (rule upt_add_eq_append) simp
  have l: "map (\<lambda>j. j mod N) [0..<N] = [0..<N]"
    by (rule map_idI) simp
  have "[N..<N + N] = map (\<lambda>i. i + N) [0..<N]"
    by (simp only: map_add_upt)
  then have "map (\<lambda>j. j mod N) [N..<N + N] = map (\<lambda>j. j mod N) [0..<N]"
    by (simp only: map_map comp_def mod_add_self2)
  with l have r: "map (\<lambda>j. j mod N) [N..<N + N] = [0..<N]"
    by simp
  have d: "(2 * N + 1) div 2 = N" by simp
  have n: "nat 2 = Suc (Suc 0)" by simp
  have "concat (replicate (nat 2) [0..<(2 * N + 1) div 2]) = [0..<N] @ [0..<N]"
    unfolding d n by simp
  also have "\<dots> = map (\<lambda>j. j mod N) [0..<N + N]"
    unfolding s map_append l r ..
  finally show ?thesis by (simp only: mult_2)
qed

lemma length_filter_neq:
  assumes "i < n"
  shows "length (filter (\<lambda>j. i \<noteq> j) [0..<n]) = n - 1"
proof -
  have "filter (\<lambda>j. \<not> i \<noteq> j) [0..<n] = [i]"
    using assms by (intro filter_single) auto
  then have "length (filter (\<lambda>j. \<not> i \<noteq> j) [0..<n]) = 1" by simp
  moreover have "length (filter (\<lambda>j. i \<noteq> j) [0..<n]) + length (filter (\<lambda>j. \<not> i \<noteq> j) [0..<n])
      = length [0..<n]"
    by (rule sum_length_filter_compl)
  ultimately show ?thesis by simp
qed

lemma positives_row:
  assumes "i < 2 * N"
  shows "filter (\<lambda>j. i mod N = j mod N) (filter (\<lambda>j. i \<noteq> j) [0..<2 * N]) = [partner N i]"
proof -
  have p: "partner N i < 2 * N" "partner N i \<noteq> i" "i mod N = partner N i mod N"
    using assms by (auto simp: partner_eq mod_below_double)
  have "filter (\<lambda>j. i \<noteq> j \<and> i mod N = j mod N) [0..<2 * N] = [partner N i]"
  proof (rule filter_single)
    show "distinct [0..<2 * N]" by simp
    show "partner N i \<in> set [0..<2 * N]" using p(1) by simp
    show "i \<noteq> partner N i \<and> i mod N = partner N i mod N" using p(2,3) by simp
    show "\<forall>y\<in>set [0..<2 * N]. i \<noteq> y \<and> i mod N = y mod N \<longrightarrow> y = partner N i"
      using same_sample_iff [OF assms] by auto
  qed
  then show ?thesis by (simp only: filter_filter)
qed

lemma negatives_row:
  assumes "i < 2 * N"
  shows "filter (\<lambda>j. \<not> i mod N = j mod N) (filter (\<lambda>j. i \<noteq> j) [0..<2 * N])
           = filter (\<lambda>j. j \<noteq> i \<and> j \<noteq> partner N i) [0..<2 * N]"
proof -
  have "filter (\<lambda>j. \<not> i mod N = j mod N) (filter (\<lambda>j. i \<noteq> j) [0..<2 * N])
          = filter (\<lambda>j. i \<noteq> j \<and> \<not> i mod N = j mod N) [0..<2 * N]"
    by (simp only: filter_filter)
  also have "\<dots> = filter (\<lambda>j. j \<noteq> i \<and> j \<noteq> partner N i) [0..<2 * N]"
    by (rule filter_cong) (use same_sample_iff [OF assms] in auto)
  finally show ?thesis .
qed

lemma length_negatives_row:
  assumes "i < 2 * N"
  shows "length (filter (\<lambda>j. \<not> i mod N = j mod N) (filter (\<lambda>j. i \<noteq> j) [0..<2 * N])) = 2 * N - 2"
proof -
  let ?J = "filter (\<lambda>j. i \<noteq> j) [0..<2 * N]"
  have "length (filter (\<lambda>j. i mod N = j mod N) ?J) + length (filter (\<lambda>j. \<not> i mod N = j mod N) ?J)
      = length ?J"
    by (rule sum_length_filter_compl)
  moreover have "length (filter (\<lambda>j. i mod N = j mod N) ?J) = 1"
    by (simp only: positives_row [OF assms]) simp
  moreover have "length ?J = 2 * N - 1"
    by (rule length_filter_neq [OF assms])
  ultimately show ?thesis by simp
qed

lemma info_nce_logits_pairs:
  assumes len: "length f = 2 * N" and pos: "0 < N"
  shows "info_nce_logits f 2 t =
     Inr (map (\<lambda>i. map (\<lambda>j. fl_div (cos_sim (f ! i) (f ! j)) t)
                  (partner N i # filter (\<lambda>j. j \<noteq> i \<and> j \<noteq> partner N i) [0..<2 * N]))
              [0..<2 * N],
          replicate (2 * N) 0)"
proof -
  let ?n = "2 * N"
  let ?I = "[0..<?n]"
  let ?J = "\<lambda>i. filter (\<lambda>j. i \<noteq> j) ?I"
  let ?same = "\<lambda>i j. i mod N = j mod N"
  let ?S = "\<lambda>i j. dot (normalize (f ! i)) (normalize (f ! j))"
  let ?P = "\<lambda>i. filter (?same i) (?J i)"
  let ?Q = "\<lambda>i. filter (\<lambda>j. \<not> ?same i j) (?J i)"
  have I: "?I \<noteq> []" "length ?I = ?n" using pos by simp_all
  have lab: "concat (replicate (nat 2) [0..<(length f + 1) div 2]) = map (\<lambda>j. j mod N) ?I"
    unfolding len by (rule labels_by_index)
  have labels: "map (\<lambda>a. map (\<lambda>b. a = b) (map (\<lambda>j. j mod N) ?I)) (map (\<lambda>j. j mod N) ?I)
                  = map (\<lambda>i. map (?same i) ?I) ?I"
    by (rule square_by_index [of "\<lambda>a b. a = b" "\<lambda>j. j mod N" ?n])
  have feats: "map normalize f = map (\<lambda>i. normalize (f ! i)) ?I"
    by (rule nth_equalityI) (simp_all add: len)
  have sim: "matmul_T (map normalize f) (map normalize f) = map (\<lambda>i. map (?S i) ?I) ?I"
    unfolding feats matmul_T_def
    by (rule square_by_index [of dot "\<lambda>i. normalize (f ! i)" ?n])
  have ms1: "masked_select (map (\<lambda>i. map (?same i) ?I) ?I) (invert (eye ?n))
               = Inr (concat (map (\<lambda>i. map (?same i) (?J i)) ?I))"
    unfolding eye_inverted
    by (rule masked_select_rows [of ?same "\<lambda>i. ?I" ?I "\<lambda>i j. i \<noteq> j"])
  have ms2: "masked_select (map (\<lambda>i. map (?S i) ?I) ?I) (invert (eye ?n))
               = Inr (concat (map (\<lambda>i. map (?S i) (?J i)) ?I))"
    unfolding eye_inverted
    by (rule masked_select_rows [of ?S "\<lambda>i. ?I" ?I "\<lambda>i j. i \<noteq> j"])
  have vr: "view_rows ?n (concat (map (\<lambda>i. map (g i) (K i)) ?I)) = Inr (map (\<lambda>i. map (g i) (K i)) ?I)"
    if "\<And>i. i < ?n \<Longrightarrow> length (K i) = k" for g :: "nat \<Rightarrow> nat \<Rightarrow> 'b" and K k
  proof -
    have "view_rows (length (map (\<lambda>i. map (g i) (K i)) ?I)) (concat (map (\<lambda>i. map (g i) (K i)) ?I))
            = Inr (map (\<lambda>i. map (g i) (K i)) ?I)"
      using I(1) that by (intro view_rows_concat [where k = k]) auto
    then show ?thesis by (simp only: length_map I(2))
  qed
  have vr1: "view_rows ?n (concat (map (\<lambda>i. map (?same i) (?J i)) ?I))
               = Inr (map (\<lambda>i. map (?same i) (?J i)) ?I)"
    by (rule vr) (rule length_filter_neq)
  have vr2: "view_rows ?n (concat (map (\<lambda>i. map (?S i) (?J i)) ?I))
               = Inr (map (\<lambda>i. map (?S i) (?J i)) ?I)"
    by (rule vr) (rule length_filter_neq)
  have ms3: "masked_select (map (\<lambda>i. map (?S i) (?J i)) ?I) (map (\<lambda>i. map (?same i) (?J i)) ?I)
               = Inr (concat (map (\<lambda>i. map (?S i) (?P i)) ?I))"
    by (rule masked_select_rows [of ?S ?J ?I ?same])
  have vr3: "view_rows ?n (concat (map (\<lambda>i. map (?S i) (?P i)) ?I))
               = Inr (map (\<lambda>i. map (?S i) (?P i)) ?I)"
    by (rule vr [of _ 1]) (simp only: positives_row, simp)
  have ms4: "masked_select (map (\<lambda>i. map (?S i) (?J i)) ?I)
                 (invert (map (\<lambda>i. map (?same i) (?J i)) ?I))
               = Inr (concat (map (\<lambda>i. map (?S i) (?Q i)) ?I))"
    unfolding invert_rows
    by (rule masked_select_rows [of ?S ?J ?I "\<lambda>i j. \<not> ?same i j"])
  have vr4: "view_rows ?n (concat (map (\<lambda>i. map (?S i) (?Q i)) ?I))
               = Inr (map (\<lambda>i. map (?S i) (?Q i)) ?I)"
    by (rule vr) (rule length_negatives_row)
  have cat: "map2 (@) (map (\<lambda>i. map (?S i) (?P i)) ?I) (map (\<lambda>i. map (?S i) (?Q i)) ?I)
               = map (\<lambda>i. map (?S i) (?P i @ ?Q i)) ?I"
    by (simp only: zip_map_same map_map comp_def prod.case map_append)
  have rows: "map (\<lambda>i. map (?S i) (?P i @ ?Q i)) ?I
                = map (\<lambda>i. map (?S i) (partner N i # filter (\<lambda>j. j \<noteq> i \<and> j \<noteq> partner N i) ?I)) ?I"
  proof (rule map_cong [OF refl])
    fix i assume "i \<in> set ?I"
    then have i: "i < 2 * N" by simp
    have "?P i @ ?Q i = partner N i # filter (\<lambda>j. j \<noteq> i \<and> j \<noteq> partner N i) ?I"
      by (simp only: positives_row [OF i] negatives_row [OF i] append_Cons append_Nil)
    then show "map (?S i) (?P i @ ?Q i)
                 = map (?S i) (partner N i # filter (\<lambda>j. j \<noteq> i \<and> j \<noteq> partner N i) ?I)"
      by (rule arg_cong)
  qed
  have "info_nce_logits f 2 t =
          Inr (map (map (\<lambda>x. fl_div x t)) (map (\<lambda>i. map (?S i) (?P i @ ?Q i)) ?I),
               replicate (length (map (\<lambda>i. map (?S i) (?P i @ ?Q i)) ?I)) 0)"
    unfolding info_nce_logits_def Let_def lab labels sim
    by (simp only: length_map I(2) ms1 ms2 vr1 vr2 ms3 vr3 ms4 vr4 cat bind_err_Inr
        not_numeral_le_zero if_False if_True simp_thms) simp
  then show ?thesis
    unfolding rows by (simp add: cos_sim_def comp_def)
qed

subsection \<open>Which samples enter the unsupervised loss\<close>

lemma chunk2_even:
  assumes "length xs = 2 * N"
  shows "chunk2 xs = [take N xs, drop N xs]"
proof (cases "N = 0")
  case True
  with assms show ?thesis by (simp add: chunk2_def)
next
  case False
  then have "xs \<noteq> []" "(length xs + 1) div 2 = N" "N < length xs"
    using assms by auto
  then show ?thesis by (simp add: chunk2_def Let_def)
qed

lemma index_chunks_even:
  assumes "length xs = 2 * N" "length m = N"
  shows "index_chunks xs m = Inr (select_row (take N xs) m, select_row (drop N xs) m)"
  using assms by (simp add: index_chunks_def chunk2_even [OF assms(1)] bool_index_def)

lemma select_row_nth:
  assumes "length m = length xs"
  shows "select_row xs m = map (\<lambda>i. xs ! i) (filter (\<lambda>i. m ! i) [0..<length xs])"
proof -
  have "select_row (map (\<lambda>i. xs ! i) [0..<length xs]) (map (\<lambda>i. m ! i) [0..<length xs])
          = map (\<lambda>i. xs ! i) (filter (\<lambda>i. m ! i) [0..<length xs])"
    by (rule select_row_map)
  moreover have "map (\<lambda>i. xs ! i) [0..<length xs] = xs" by (rule map_nth)
  moreover have "map (\<lambda>i. m ! i) [0..<length xs] = m"
    unfolding assms [symmetric] by (rule map_nth)
  ultimately show ?thesis by simp
qed

text \<open>
  Claim C9. For a batch of \<open>N\<close> samples in two views (\<open>2 * N\<close> feature rows, the first view
  followed by the second), with \<open>contrast_unlabel_only\<close> the input of the pair constructor is
  the rows of the first view whose labelled mask is false, in order, followed by the same
  rows of the second view; without it the input is all \<open>2 * N\<close> rows. For the mask
  \<open>[T, F, T, F]\<close> these are the four unlabelled view-instances.
\<close>

theorem con_feats_unlabelled:
  assumes "length features = 2 * length m"
  shows "con_feats a features m =
           Inr (if contrast_unlabel_only a
                then map (\<lambda>i. features ! i) (filter (\<lambda>i. \<not> m ! i) [0..<length m])
                     @ map (\<lambda>i. features ! (length m + i)) (filter (\<lambda>i. \<not> m ! i) [0..<length m])
                else features)"
proof (cases "contrast_unlabel_only a")
  case False
  then show ?thesis by (simp add: con_feats_def)
next
  case True
  let ?N = "length m"
  let ?U = "filter (\<lambda>i. \<not> m ! i) [0..<?N]"
  have n: "map Not m ! i = (\<not> m ! i)" if "i < ?N" for i using that by simp
  have f: "filter (\<lambda>i. map Not m ! i) [0..<?N] = ?U"
    by (rule filter_cong) (simp_all add: n)
  have a: "select_row (take ?N features) (map Not m) = map (\<lambda>i. features ! i) ?U"
  proof -
    have "select_row (take ?N features) (map Not m)
            = map (\<lambda>i. take ?N features ! i) (filter (\<lambda>i. map Not m ! i) [0..<length (take ?N features)])"
      by (rule select_row_nth) (simp add: assms)
    also have "\<dots> = map (\<lambda>i. take ?N features ! i) ?U"
      using assms by (simp add: f)
    also have "\<dots> = map (\<lambda>i. features ! i) ?U"
      by (rule map_cong) simp_all
    finally show ?thesis .
  qed
  have b: "select_row (drop ?N features) (map Not m) = map (\<lambda>i. features ! (?N + i)) ?U"
  proof -
    have "select_row (drop ?N features) (map Not m)
            = map (\<lambda>i. drop ?N features ! i) (filter (\<lambda>i. map Not m ! i) [0..<length (drop ?N features)])"
      by (rule select_row_nth) (simp add: assms)
    also have "\<dots> = map (\<lambda>i. drop ?N features ! i) ?U"
      using assms by (simp add: f)
    also have "\<dots> = map (\<lambda>i. features ! (?N + i)) ?U"
      by (rule map_cong) (simp_all add: assms)
    finally show ?thesis .
  qed
  have "index_chunks features (map Not m)
          = Inr (select_row (take ?N features) (map Not m), select_row (drop ?N features) (map Not m))"
    by (rule index_chunks_even [OF assms]) simp
  then show ?thesis using True by (simp add: con_feats_def a b)
qed

theorem con_feats_unlabelled_witness:
  "length [[1::real], [2], [3], [4], [5], [6], [7], [8]] = 2 * length [True, False, True, False]
   \<and> con_feats example_args [[1], [2], [3], [4], [5], [6], [7], [8]] [True, False, True, False]
       = Inr [[2], [4], [6], [8]]"
proof -
  have h: "length [[1::real], [2], [3], [4], [5], [6], [7], [8]] = 2 * length [True, False, True, False]"
    by simp
  have u: "[0..<length [True, False, True, False]] = [0, 1, 2, 3]"
    by (simp add: upt_conv_Cons)
  show ?thesis
    using h con_feats_unlabelled [OF h, of example_args]
    by (simp only: u) (simp add: example_args_def)
qed

subsection \<open>The total loss of a batch\<close>

lemma drop_concat_uniform:
  assumes "\<forall>xs\<in>set xss. length xs = k"
  shows "drop (i * k) (concat xss) = concat (drop i xss)"
  using assms
proof (induction xss arbitrary: i)
  case Nil
  then show ?case by simp
next
  case (Cons x xss)
  then show ?case by (cases i) simp_all
qed

lemma feature_at_stack_views:
  assumes "length f1 = length f2" "k < length f1"
    and "\<forall>r\<in>set f1. length r = D" "\<forall>r\<in>set f2. length r = D"
  shows "feature_at (stack_views D f1 f2) k 0 = f1 ! k
         \<and> feature_at (stack_views D f1 f2) k 1 = f2 ! k"
proof -
  let ?xss = "map2 (@) f1 f2"
  have u: "\<forall>xs\<in>set ?xss. length xs = 2 * D"
  proof
    fix xs assume "xs \<in> set ?xss"
    then obtain p q where pq: "(p, q) \<in> set (zip f1 f2)" "xs = p @ q" by auto
    from pq(1) have "p \<in> set f1" "q \<in> set f2"
      by (auto dest: set_zip_leftD set_zip_rightD)
    with assms(3,4) pq(2) show "length xs = 2 * D" by simp
  qed
  have k: "k < length ?xss" using assms(1,2) by simp
  have d: "drop (k * (2 * D)) (concat ?xss) = concat (drop k ?xss)"
    by (rule drop_concat_uniform [OF u])
  have "drop k ?xss = ?xss ! k # drop (Suc k) ?xss"
    by (rule Cons_nth_drop_Suc [OF k, symmetric])
  moreover have "?xss ! k = f1 ! k @ f2 ! k"
    using assms(1,2) by simp
  ultimately have c: "concat (drop k ?xss) = f1 ! k @ f2 ! k @ concat (drop (Suc k) ?xss)"
    by (simp only: concat.simps append_assoc)
  have l: "length (f1 ! k) = D" "length (f2 ! k) = D"
    using assms by simp_all
  have e0: "(k * 2 + 0) * D = k * (2 * D)" by simp
  have e1: "drop ((k * 2 + 1) * D) (concat ?xss) = drop D (drop (k * (2 * D)) (concat ?xss))"
    by (simp add: algebra_simps)
  have a0: "take D (drop ((k * 2 + 0) * D) (concat ?xss)) = f1 ! k"
    unfolding e0 d c using l by simp
  have a1: "take D (drop ((k * 2 + 1) * D) (concat ?xss)) = f2 ! k"
    unfolding e1 d c using l by simp
  show ?thesis
    unfolding feature_at_def stack_views_def
    using a0 a1 by (simp add: Let_def)
qed

subsection \<open>Files written by a stage and read by the next\<close>

lemma eval_gate_res: "res (eval_gate E a stage e st) = res st"
  by (simp add: eval_gate_def Let_def)

lemma latest_best_disjoint: "set (latest_files a i) \<inter> set (best_files a i) = {}"
  by (simp add: latest_files_def best_files_def save_file_inject)

lemma fit_invariant:
  assumes "fit E a self fs = Inr t" and "P (start E self fs)"
    and "\<And>u e st3 steps.
           P u \<Longrightarrow> files st3 = files u \<Longrightarrow> best_test_acc_lab st3 = best_test_acc_lab u \<Longrightarrow>
           gates (log st3) = gates (log u) \<Longrightarrow> P st3"
    and "\<And>st3 e. P st3 \<Longrightarrow> P (eval_gate E a (stage_i self) e st3)"
  shows "P t"
proof (rule foldM_invariant [OF assms(1) [unfolded fit_def], where P = P])
  show "P (start E self fs)" by (rule assms(2))
next
  fix u e v
  assume u: "P u" and s: "epoch_step E a (stage_i self) u e = Inr v"
  from s show "P v"
  proof (rule epoch_step_Inr)
    fix st3 steps
    assume h: "files st3 = files u" "best_test_acc_lab st3 = best_test_acc_lab u"
      "log st3 = log u @ (if e mod fit_gmm_every_n_epoch a = 0 then [Refit e] else []) @ steps"
      "\<forall>ev\<in>set steps. \<exists>ctx l. ev = Step e ctx l
        \<and> (if e \<ge> fit_gmm_every_n_epoch a then is_prediction E (stage_i self) ctx else ctx = res u)"
      "v = (if e mod eval_every_n_epoch a = 0 then eval_gate E a (stage_i self) e st3 else st3)"
    have g: "gates (log st3) = gates (log u)"
      by (rule gates_epoch [OF h(3,4)])
    have "P st3" by (rule assms(3) [OF u h(1,2) g])
    then show ?thesis using h(5) assms(4) by simp
  qed
qed


lemma fit_gate_files:
  assumes "fit E a self fs = Inr t"
  shows "(\<forall>g\<in>set (gates (log t)).
            snd g = latest_files a (stage_i self)
            \<or> snd g = latest_files a (stage_i self) @ best_files a (stage_i self))"
proof -
  have "tracked a (stage_i self) (best_test_acc_lab t) (gates (log t))"
    by (rule fit_tracked [OF assms])
  then have w: "\<forall>k<length (gates (log t)). snd (gates (log t) ! k) =
           latest_files a (stage_i self) @
             (if 0 < fst (gates (log t) ! k) \<and> (\<forall>j<k. fst (gates (log t) ! j) < fst (gates (log t) ! k))
              then best_files a (stage_i self) else [])"
    by (simp add: tracked_def)
  show ?thesis
  proof
    fix g assume "g \<in> set (gates (log t))"
    then obtain k where k: "k < length (gates (log t))" "g = gates (log t) ! k"
      by (auto simp: in_set_conv_nth)
    from w k show "snd g = latest_files a (stage_i self)
            \<or> snd g = latest_files a (stage_i self) @ best_files a (stage_i self)"
      by (cases "0 < fst (gates (log t) ! k) \<and> (\<forall>j<k. fst (gates (log t) ! j) < fst (gates (log t) ! k))")
        simp_all
  qed
qed

lemma fit_files_dom:
  assumes "fit E a self fs = Inr t"
  shows "dom (files t) \<subseteq> dom fs \<union> set (latest_files a (stage_i self)) \<union> set (best_files a (stage_i self))"
proof (rule fit_invariant [OF assms, where P = "\<lambda>st. dom (files st) \<subseteq>
          dom fs \<union> set (latest_files a (stage_i self)) \<union> set (best_files a (stage_i self))"])
  show "dom (files (start E self fs)) \<subseteq>
          dom fs \<union> set (latest_files a (stage_i self)) \<union> set (best_files a (stage_i self))"
    by (auto simp: start_def)
next
  fix u st3 :: "('a, 'b, 'c, 'd) run"
  assume "dom (files u) \<subseteq> dom fs \<union> set (latest_files a (stage_i self)) \<union> set (best_files a (stage_i self))"
    "files st3 = files u"
  then show "dom (files st3) \<subseteq> dom fs \<union> set (latest_files a (stage_i self)) \<union> set (best_files a (stage_i self))"
    by simp
next
  fix st3 :: "('a, 'b, 'c, 'd) run" and e
  assume "dom (files st3) \<subseteq> dom fs \<union> set (latest_files a (stage_i self)) \<union> set (best_files a (stage_i self))"
  then show "dom (files (eval_gate E a (stage_i self) e st3)) \<subseteq>
          dom fs \<union> set (latest_files a (stage_i self)) \<union> set (best_files a (stage_i self))"
    by (auto simp: eval_gate_files latest_files_def best_files_def split: if_splits)
qed

lemma init_loaded:
  assumes "PromptCCD_Model_init gv G fs a (Some prev) i = Inr tr"
  shows "loaded tr = best_files a (i - 1)"
  using assms
  by (auto simp: PromptCCD_Model_init_def best_files_def load_file_save_file split: sum.splits)

lemma conventional_names:
  assumes "save_path a \<noteq> []" "last (save_path a) \<noteq> CHR ''/''"
    and "ccd_model a = [] \<or> hd (ccd_model a) \<noteq> CHR ''/''"
  shows "latest_files a i = [conventional a i ''model'' False, conventional a i ''model_proj_head'' False]"
    and "best_files a i = [conventional a i ''model'' True, conventional a i ''proj_head'' True]"
  by (simp_all add: latest_files_def best_files_def save_file_plain [OF assms] conventional_def)

lemma init_missing:
  assumes "fs (save_file a (i - 1) ''_model_best.pt'') = None
           \<or> fs (save_file a (i - 1) ''_proj_head_best.pt'') = None"
  shows "PromptCCD_Model_init gv G fs a (Some prev) i = Inl FileNotFoundError"
  using assms
  by (auto simp: PromptCCD_Model_init_def torch_load_def load_file_save_file
      split: sum.splits option.splits)

lemma fit_best_untouched:
  assumes "fit E a self fs = Inr t"
    and "\<forall>g\<in>set (gates (log t)). fst g \<le> 0"
  shows "(\<forall>g\<in>set (gates (log t)). snd g = latest_files a (stage_i self))
         \<and> (\<forall>p\<in>set (best_files a (stage_i self)). files t p = fs p)"
proof -
  let ?L = "latest_files a (stage_i self)" and ?B = "best_files a (stage_i self)"
  have tr: "tracked a (stage_i self) (best_test_acc_lab t) (gates (log t))"
    by (rule fit_tracked [OF assms(1)])
  have g: "\<forall>g\<in>set (gates (log t)). snd g = ?L"
  proof
    fix g assume "g \<in> set (gates (log t))"
    then obtain k where k: "k < length (gates (log t))" "g = gates (log t) ! k"
      by (auto simp: in_set_conv_nth)
    have "fst (gates (log t) ! k) \<le> 0" using assms(2) k(1) by simp
    then have "\<not> 0 < fst (gates (log t) ! k)" by simp
    with tr k show "snd g = ?L" by (simp add: tracked_def)
  qed
  have B: "?B \<noteq> []" by (simp add: best_files_def)
  have "(\<forall>g\<in>set (gates (log t)). snd g = ?L) \<longrightarrow> (\<forall>p\<in>set ?B. files t p = fs p)"
  proof (rule fit_invariant [OF assms(1), where P = "\<lambda>st.
          (\<forall>g\<in>set (gates (log st)). snd g = ?L) \<longrightarrow> (\<forall>p\<in>set ?B. files st p = fs p)"])
    show "(\<forall>g\<in>set (gates (log (start E self fs))). snd g = ?L)
            \<longrightarrow> (\<forall>p\<in>set ?B. files (start E self fs) p = fs p)"
      by (simp add: start_def)
  next
    fix u st3 :: "('a, 'b, 'c, 'd) run"
    assume "(\<forall>g\<in>set (gates (log u)). snd g = ?L) \<longrightarrow> (\<forall>p\<in>set ?B. files u p = fs p)"
      "files st3 = files u" "gates (log st3) = gates (log u)"
    then show "(\<forall>g\<in>set (gates (log st3)). snd g = ?L) \<longrightarrow> (\<forall>p\<in>set ?B. files st3 p = fs p)"
      by simp
  next
    fix st3 :: "('a, 'b, 'c, 'd) run" and e
    assume ih: "(\<forall>g\<in>set (gates (log st3)). snd g = ?L) \<longrightarrow> (\<forall>p\<in>set ?B. files st3 p = fs p)"
    let ?acc = "eval_kmeans E (r_model st3) (r_gmm st3) (stage_i self) e"
    show "(\<forall>g\<in>set (gates (log (eval_gate E a (stage_i self) e st3))). snd g = ?L)
            \<longrightarrow> (\<forall>p\<in>set ?B. files (eval_gate E a (stage_i self) e st3) p = fs p)"
    proof
      assume a: "\<forall>g\<in>set (gates (log (eval_gate E a (stage_i self) e st3))). snd g = ?L"
      have gl: "gates (log (eval_gate E a (stage_i self) e st3))
                  = gates (log st3) @ [(?acc, ?L @ (if ?acc > best_test_acc_lab st3 then ?B else []))]"
        by (simp add: eval_gate_log gates_append) (simp add: gates_def)
      from a have old: "\<forall>g\<in>set (gates (log st3)). snd g = ?L"
        and new: "?L @ (if ?acc > best_test_acc_lab st3 then ?B else []) = ?L"
        unfolding gl by simp_all
      from new B have n: "\<not> ?acc > best_test_acc_lab st3" by (auto split: if_splits)
      have "files (eval_gate E a (stage_i self) e st3) p = files st3 p" if "p \<in> set ?B" for p
      proof -
        have "p \<notin> set ?L" using latest_best_disjoint [of a "stage_i self"] that by blast
        then show ?thesis using n by (simp add: eval_gate_files latest_files_def)
      qed
      with ih old show "\<forall>p\<in>set ?B. files (eval_gate E a (stage_i self) e st3) p = fs p"
        by simp
    qed
  qed
  with g show ?thesis by blast
qed

subsection \<open>The example run\<close>

lemma ex_normalize: "normalize [1] = [1]"
  by (simp add: normalize_def)

lemma ex_fields:
  "contrast_unlabel_only (example_args\<lparr>epochs := n\<rparr>)"
  "n_views (example_args\<lparr>epochs := n\<rparr>) = 2"
  "temperature (example_args\<lparr>epochs := n\<rparr>) = 1"
  "sup_con_weight (example_args\<lparr>epochs := n\<rparr>) = [0]"
  "fit_gmm_every_n_epoch (example_args\<lparr>epochs := n\<rparr>) = 1"
  "eval_every_n_epoch (example_args\<lparr>epochs := n\<rparr>) = 1"
  "epochs (example_args\<lparr>epochs := n\<rparr>) = n"
  by (simp_all add: example_args_def)

lemma ex_loss:
  "batch_loss (example_env\<lparr>eval_kmeans := (\<lambda>m g s. acc)\<rparr>) (example_args\<lparr>epochs := n\<rparr>) 0 [[1], [1]] [3] [False] = Inr (Finite 2)"
proof -
  have "info_nce_logits [[1], [1]] 2 1 =
          Inr (map (\<lambda>i. map (\<lambda>j. fl_div (cos_sim ([[1], [1]] ! i) ([[1], [1]] ! j)) 1)
                       (partner 1 i # filter (\<lambda>j. j \<noteq> i \<and> j \<noteq> partner 1 i) [0..<2 * 1]))
                [0..<2 * 1], replicate (2 * 1) 0)"
    by (rule info_nce_logits_pairs) simp_all
  then obtain lg where i: "info_nce_logits [[1], [1]] 2 1 = Inr (lg, replicate (2 * 1) 0)"
    by blast
  have c: "con_feats (example_args\<lparr>epochs := n\<rparr>) [[1], [1]] [False] = Inr [[1], [1]]"
    by (simp add: con_feats_def ex_fields index_chunks_even [of _ 1] select_row_def)
  have ce: "cross_entropy (example_env\<lparr>eval_kmeans := (\<lambda>m g s. acc)\<rparr>) = (\<lambda>l t. Inr (Finite 2))"
    by (simp add: example_env_def)
  show ?thesis
    by (simp add: batch_loss_def c i ce ex_fields py_index_def sup_con_term_def total_loss_def)
qed

lemma ex_batch:
  "batch_step (example_env\<lparr>eval_kmeans := (\<lambda>m g s. acc)\<rparr>) (example_args\<lparr>epochs := n\<rparr>) 0 e
     \<lparr>r_model = (), r_head = (), r_gmm = (), r_opt = (), res = r,
      best_test_acc_lab = b, files = fs, log = l\<rparr> example_batch =
     Inr \<lparr>r_model = (), r_head = (), r_gmm = (), r_opt = (),
          res = (if e \<ge> 1 then Some 7 else r),
          best_test_acc_lab = b, files = fs,
          log = l @ [Step e (if e \<ge> 1 then Some 7 else r) (Finite 2)]\<rparr>"
proof -
  have env: "backbone (example_env\<lparr>eval_kmeans := (\<lambda>m g s. acc)\<rparr>) = (\<lambda>p imgs s ctx. map (\<lambda>_. [1]) imgs)"
    "head (example_env\<lparr>eval_kmeans := (\<lambda>m g s. acc)\<rparr>) = (\<lambda>p x. x)" "gmm_predict (example_env\<lparr>eval_kmeans := (\<lambda>m g s. acc)\<rparr>) = (\<lambda>g f. 7)"
    "sgd_step (example_env\<lparr>eval_kmeans := (\<lambda>m g s. acc)\<rparr>) = (\<lambda>opt p b ctx. ((), (), ()))"
    by (simp_all add: example_env_def)
  have b: "images example_batch = [[()], [()]]" "class_labels example_batch = [3]"
    "mask_lab example_batch = [False]"
    by (simp_all add: example_batch_def)
  show ?thesis
    unfolding batch_step_def
    by (simp add: env b ex_fields ex_normalize ex_loss Let_def)
qed

lemma ex_paths:
  "save_file (example_args\<lparr>epochs := n\<rparr>) 0 ''_model.pt'' = ''out/model/m_stage_0_model.pt''"
  "save_file (example_args\<lparr>epochs := n\<rparr>) 0 ''_model_proj_head.pt'' = ''out/model/m_stage_0_model_proj_head.pt''"
  "save_file (example_args\<lparr>epochs := n\<rparr>) 0 ''_model_best.pt'' = ''out/model/m_stage_0_model_best.pt''"
  "save_file (example_args\<lparr>epochs := n\<rparr>) 0 ''_proj_head_best.pt'' = ''out/model/m_stage_0_proj_head_best.pt''"
  by (simp_all add: save_file_def model_path_def path_join_def join2_def stage_file_def
      str_int_def str_nat.simps digit_char_def example_args_def)

lemma ex_epoch:
  "epoch_step (example_env\<lparr>eval_kmeans := (\<lambda>m g s. acc)\<rparr>) (example_args\<lparr>epochs := n\<rparr>) 0
     \<lparr>r_model = (), r_head = (), r_gmm = (), r_opt = (), res = r,
      best_test_acc_lab = b, files = fs, log = l\<rparr> e =
     Inr \<lparr>r_model = (), r_head = (), r_gmm = (), r_opt = (),
          res = (if e \<ge> 1 then Some 7 else r),
          best_test_acc_lab = max b (acc e),
          files = (if acc e > b
                   then fs(''out/model/m_stage_0_model.pt'' \<mapsto> (),
                           ''out/model/m_stage_0_model_proj_head.pt'' \<mapsto> (),
                           ''out/model/m_stage_0_model_best.pt'' \<mapsto> (),
                           ''out/model/m_stage_0_proj_head_best.pt'' \<mapsto> ())
                   else fs(''out/model/m_stage_0_model.pt'' \<mapsto> (),
                           ''out/model/m_stage_0_model_proj_head.pt'' \<mapsto> ())),
          log = l @ [Refit e, Step e (if e \<ge> 1 then Some 7 else r) (Finite 2),
                     Gate e (acc e)
                       ([''out/model/m_stage_0_model.pt'', ''out/model/m_stage_0_model_proj_head.pt'']
                        @ (if acc e > b
                           then [''out/model/m_stage_0_model_best.pt'',
                                 ''out/model/m_stage_0_proj_head_best.pt'']
                           else []))]\<rparr>"
proof -
  have env: "contrast_loader (example_env\<lparr>eval_kmeans := (\<lambda>m g s. acc)\<rparr>) = (\<lambda>e. [example_batch])"
    "gmm_fit (example_env\<lparr>eval_kmeans := (\<lambda>m g s. acc)\<rparr>) = (\<lambda>g m s. g)" "scheduler_step (example_env\<lparr>eval_kmeans := (\<lambda>m g s. acc)\<rparr>) = (\<lambda>opt. opt)"
    "eval_kmeans (example_env\<lparr>eval_kmeans := (\<lambda>m g s. acc)\<rparr>) = (\<lambda>m g s. acc)"
    by (simp_all add: example_env_def)
  show ?thesis
    unfolding epoch_step_def eval_gate_def ex_paths
    by (simp add: env ex_fields ex_batch Let_def max_def)
qed

lemma ex_start':
  "start (example_env\<lparr>eval_kmeans := k\<rparr>) example_trainer fs =
     \<lparr>r_model = (), r_head = (), r_gmm = (), r_opt = (), res = None,
      best_test_acc_lab = 0, files = fs, log = []\<rparr>"
  by (simp add: start_def example_trainer_def)

lemma ex_env: "example_env = example_env\<lparr>eval_kmeans := (\<lambda>m g s. example_acc)\<rparr>"
  by (simp add: example_env_def)

lemma ex_acc: "example_acc 0 = 1 / 10" "example_acc 1 = 1 / 20" "example_acc 2 = 3 / 10"
  "example_acc 3 = 1 / 5" "example_acc 4 = 2 / 5"
  by (simp_all add: example_acc_def)

lemma ex_run1:
  "fit (example_env\<lparr>eval_kmeans := (\<lambda>m g s. acc)\<rparr>) example_args example_trainer fs =
     Inr \<lparr>r_model = (), r_head = (), r_gmm = (), r_opt = (), res = None,
          best_test_acc_lab = max 0 (acc 0),
          files = (if acc 0 > 0
                   then fs(''out/model/m_stage_0_model.pt'' \<mapsto> (),
                           ''out/model/m_stage_0_model_proj_head.pt'' \<mapsto> (),
                           ''out/model/m_stage_0_model_best.pt'' \<mapsto> (),
                           ''out/model/m_stage_0_proj_head_best.pt'' \<mapsto> ())
                   else fs(''out/model/m_stage_0_model.pt'' \<mapsto> (),
                           ''out/model/m_stage_0_model_proj_head.pt'' \<mapsto> ())),
          log = [Refit 0, Step 0 None (Finite 2),
                 Gate 0 (acc 0)
                   ([''out/model/m_stage_0_model.pt'', ''out/model/m_stage_0_model_proj_head.pt'']
                    @ (if acc 0 > 0
                       then [''out/model/m_stage_0_model_best.pt'',
                             ''out/model/m_stage_0_proj_head_best.pt'']
                       else []))]\<rparr>"
proof -
  have a: "example_args = example_args\<lparr>epochs := 1\<rparr>" by (simp add: example_args_def)
  have s: "stage_i example_trainer = 0" by (simp add: example_trainer_def)
  have u: "map int [0..<nat 1] = [0]" by simp
  show ?thesis
    apply (subst a)
    unfolding fit_def ex_fields s u ex_start'
    by (simp add: ex_epoch)
qed

lemma ex_fit5:
  "map_sum id (\<lambda>t. (gates (log t), best_test_acc_lab t))
     (fit example_env (example_args\<lparr>epochs := 5\<rparr>) example_trainer Map.empty) =
     Inr ([(1 / 10, [''out/model/m_stage_0_model.pt'', ''out/model/m_stage_0_model_proj_head.pt'',
                     ''out/model/m_stage_0_model_best.pt'', ''out/model/m_stage_0_proj_head_best.pt'']),
           (1 / 20, [''out/model/m_stage_0_model.pt'', ''out/model/m_stage_0_model_proj_head.pt'']),
           (3 / 10, [''out/model/m_stage_0_model.pt'', ''out/model/m_stage_0_model_proj_head.pt'',
                     ''out/model/m_stage_0_model_best.pt'', ''out/model/m_stage_0_proj_head_best.pt'']),
           (1 / 5, [''out/model/m_stage_0_model.pt'', ''out/model/m_stage_0_model_proj_head.pt'']),
           (2 / 5, [''out/model/m_stage_0_model.pt'', ''out/model/m_stage_0_model_proj_head.pt'',
                     ''out/model/m_stage_0_model_best.pt'', ''out/model/m_stage_0_proj_head_best.pt''])],
          2 / 5)"
proof -
  have s: "stage_i example_trainer = 0" by (simp add: example_trainer_def)
  have u: "map int [0..<nat 5] = [0, 1, 2, 3, 4]" by (simp add: upt_conv_Cons)
  show ?thesis
    apply (subst ex_env)
    unfolding fit_def ex_fields s u ex_start'
    by (simp add: ex_epoch ex_acc gates_def)
qed

subsection \<open>Rows of the tiled mask\<close>

lemma concat_replicate_nth:
  assumes "i < n * length xs"
  shows "concat (replicate n xs) ! i = xs ! (i mod length xs)"
  using assms
proof (induction n arbitrary: i)
  case 0
  then show ?case by simp
next
  case (Suc n)
  show ?case
  proof (cases "i < length xs")
    case True
    then show ?thesis by (simp add: nth_append)
  next
    case False
    then have "i - length xs < n * length xs" using Suc.prems by simp
    from Suc.IH [OF this] False show ?thesis
      by (simp add: nth_append le_mod_geq)
  qed
qed

lemma length_concat_replicate: "length (concat (replicate n xs)) = n * length xs"
  by (induction n) simp_all

lemma tile_row:
  assumes "well_shaped msk B" "r < B * A" "0 < B"
  shows "tile msk A V ! r = map (\<lambda>c. msk ! (r mod B) ! (c mod B)) [0..<B * V]"
proof -
  let ?rows = "map (\<lambda>row. concat (replicate V row)) msk"
  have lm: "length msk = B" and lr: "\<And>i. i < B \<Longrightarrow> length (msk ! i) = B"
    using assms(1) by (auto simp: well_shaped_def)
  have "r < A * length ?rows" using assms(2) lm by (simp add: mult.commute)
  then have "tile msk A V ! r = ?rows ! (r mod length ?rows)"
    unfolding tile_def by (rule concat_replicate_nth)
  also have "\<dots> = concat (replicate V (msk ! (r mod B)))"
    using lm assms(3) by simp
  also have "\<dots> = map (\<lambda>c. msk ! (r mod B) ! (c mod B)) [0..<B * V]"
  proof (rule nth_equalityI)
    show "length (concat (replicate V (msk ! (r mod B)))) = length (map (\<lambda>c. msk ! (r mod B) ! (c mod B)) [0..<B * V])"
      using lr [of "r mod B"] assms(3) by (simp add: length_concat_replicate mult.commute)
  next
    fix i assume "i < length (concat (replicate V (msk ! (r mod B))))"
    then have i: "i < V * length (msk ! (r mod B))" by (simp add: length_concat_replicate)
    have l: "length (msk ! (r mod B)) = B" using lr [of "r mod B"] assms(3) by simp
    from i l have "i < B * V" by (simp add: mult.commute)
    then show "concat (replicate V (msk ! (r mod B))) ! i = map (\<lambda>c. msk ! (r mod B) ! (c mod B)) [0..<B * V] ! i"
      using concat_replicate_nth [OF i] l by simp
  qed
  finally show ?thesis .
qed

lemma length_tile: "length (tile msk A V) = A * length msk"
  by (simp add: tile_def length_concat_replicate)

lemma positive_mask_row:
  assumes "well_shaped msk B" "r < B * A" "0 < B"
  shows "positive_mask msk A V ! r =
           map (\<lambda>c. msk ! (r mod B) ! (c mod B) * (if c = r then 0 else 1)) [0..<B * V]"
proof -
  have lm: "length msk = B" using assms(1) by (simp add: well_shaped_def)
  have r: "r < length (tile msk A V)" "r < length (logits_mask (B * A) (B * V))"
    using assms(2) lm by (simp_all add: length_tile logits_mask_def mult.commute)
  have "positive_mask msk A V ! r
          = map2 (*) (tile msk A V ! r) (logits_mask (B * A) (B * V) ! r)"
    unfolding positive_mask_def times_def lm using r by simp
  also have "\<dots> = map2 (*) (map (\<lambda>c. msk ! (r mod B) ! (c mod B)) [0..<B * V])
                         (map (\<lambda>c. if c = r then 0 else 1) [0..<B * V])"
    using tile_row [OF assms] assms(2) by (simp add: logits_mask_def)
  also have "\<dots> = map (\<lambda>c. msk ! (r mod B) ! (c mod B) * (if c = r then 0 else 1)) [0..<B * V]"
    by (simp only: zip_map_same map_map comp_def prod.case)
  finally show ?thesis .
qed

lemma length_positive_mask:
  "length (positive_mask msk A V) = length msk * A"
  by (simp add: positive_mask_def times_def length_tile logits_mask_def mult.commute)

lemma sum_list_ge_member:
  fixes xs :: "real list"
  assumes "\<forall>x\<in>set xs. 0 \<le> x" "y \<in> set xs"
  shows "y \<le> sum_list xs"
  using assms
proof (induction xs)
  case Nil
  then show ?case by simp
next
  case (Cons a xs)
  have nn: "0 \<le> sum_list xs" using Cons.prems(1) by (intro sum_list_nonneg) simp
  show ?case
  proof (cases "y = a")
    case True
    with nn show ?thesis by simp
  next
    case False
    then have "y \<le> sum_list xs" using Cons by simp
    moreover have "0 \<le> a" using Cons.prems(1) by simp
    ultimately show ?thesis by simp
  qed
qed

lemma other_view:
  assumes "r < B * V" "2 \<le> (V::nat)" "0 < B"
  shows "(r + B) mod (B * V) < B * V" "(r + B) mod (B * V) \<noteq> r"
    "(r + B) mod (B * V) mod B = r mod B"
proof -
  have p: "0 < B * V" using assms by simp
  then show "(r + B) mod (B * V) < B * V" by simp
  have lt: "B < B * V" using assms(2,3) by simp
  show "(r + B) mod (B * V) \<noteq> r"
  proof (cases "r + B < B * V")
    case True
    then show ?thesis using assms(3) by simp
  next
    case False
    then have "(r + B) mod (B * V) = (r + B - B * V) mod (B * V)"
      by (intro le_mod_geq) simp
    also have "\<dots> = r + B - B * V"
    proof (rule mod_less)
      show "r + B - B * V < B * V" using assms(1) lt by linarith
    qed
    finally show ?thesis using lt False by linarith
  qed
  have "(r + B) mod (B * V) mod B = (r + B) mod B"
    by (rule mod_mod_cancel) simp
  then show "(r + B) mod (B * V) mod B = r mod B" by simp
qed

lemma view3_ok:
  assumes "3 \<le> length (shape f)" "shape f ! 0 * shape f ! 1 \<noteq> 0"
  shows "\<exists>f'. view3 f = Inr f' \<and> shape f' ! 0 = shape f ! 0 \<and> shape f' ! 1 = shape f ! 1"
  using assms by (simp add: view3_def Let_def)

lemma label_mask:
  assumes "length ls = B"
  shows "sample_mask B (Some ls) None = Inr (map (\<lambda>a. map (\<lambda>b. if a = b then 1 else 0) ls) ls)"
    and "well_shaped (map (\<lambda>a. map (\<lambda>b. if a = b then 1 else 0) ls) ls) B"
  using assms by (simp_all add: sample_mask_def well_shaped_def)

lemma length_contrast_feature:
  assumes "contrast_feature f = Inr cf"
  shows "length cf = shape f ! 0 * shape f ! 1"
proof -
  have "length cf = length (concat (map (\<lambda>v. map (\<lambda>b. feature_at f b v) [0..<shape f ! 0])
                                        [0..<shape f ! 1]))"
    using assms by (auto simp: contrast_feature_def Let_def split: if_splits)
  also have "\<dots> = length [0..<shape f ! 1] * shape f ! 0"
    by (subst length_concat_uniform [where k = "shape f ! 0"]) simp_all
  finally show ?thesis by (simp add: mult.commute)
qed

lemma exp_logits_row:
  assumes "r < length L" "r < n" "length (L ! r) = k"
  shows "exp_logits L n k ! r = map (\<lambda>c. exp (L ! r ! c) * (if c = r then 0 else 1)) [0..<k]"
proof -
  have "exp_logits L n k ! r = map2 (*) (map exp (L ! r)) (map (\<lambda>c. if c = r then 0 else 1) [0..<k])"
    using assms(1,2) by (simp add: exp_logits_def times_def logits_mask_def)
  also have "map exp (L ! r) = map (\<lambda>c. exp (L ! r ! c)) [0..<k]"
    using assms(3) by (intro nth_equalityI) simp_all
  finally show ?thesis
    by (simp only: zip_map_same map_map comp_def prod.case)
qed

lemma length_exp_logits: "length (exp_logits L n k) = min (length L) n"
  by (simp add: exp_logits_def times_def logits_mask_def)

lemma stable_logits_shape:
  assumes "t \<noteq> 0"
  shows "\<exists>L. stable_logits t anchor cf = Some L \<and> length L = length anchor
             \<and> (\<forall>r<length anchor. length (L ! r) = length cf)"
  using assms by (simp add: stable_logits_def matmul_T_def)

lemma fl_mean_finite:
  assumes "xs \<noteq> []" "\<forall>x\<in>set xs. \<exists>v. x = Finite v"
  shows "\<exists>loss. fl_mean xs = Finite loss"
proof -
  have "NonFinite \<notin> set xs" using assms(2) by auto
  with assms(1) show ?thesis by (simp add: fl_mean_def)
qed

lemma mean_log_prob_pos_finite:
  assumes "length pm = n" "length L = n" "length el = n"
    and "\<forall>r<n. 0 < sum_list (el ! r) \<and> sum_list (pm ! r) \<noteq> 0"
  shows "length (mean_log_prob_pos pm L el) = n"
    and "\<forall>x\<in>set (mean_log_prob_pos pm L el). \<exists>v. x = Finite v"
proof -
  show len: "length (mean_log_prob_pos pm L el) = n"
    using assms(1-3) by (simp add: mean_log_prob_pos_def)
  show "\<forall>x\<in>set (mean_log_prob_pos pm L el). \<exists>v. x = Finite v"
  proof
    fix x assume "x \<in> set (mean_log_prob_pos pm L el)"
    then obtain r where r: "r < n" "x = mean_log_prob_pos pm L el ! r"
      using len by (auto simp: in_set_conv_nth)
    have "0 < sum_list (el ! r)" "sum_list (pm ! r) \<noteq> 0" using assms(4) r(1) by simp_all
    then show "\<exists>v. x = Finite v"
      using r assms(1-3) by (simp add: mean_log_prob_pos_def)
  qed
qed

lemma positive_count_ge_one:
  assumes ws: "well_shaped msk B" and r: "r < B * A" and B: "0 < B" and V: "2 \<le> V"
    and A: "A \<le> V"
    and nn: "\<forall>i<B. \<forall>j<B. 0 \<le> msk ! i ! j" and dg: "\<forall>i<B. msk ! i ! i = 1"
  shows "1 \<le> sum_list (positive_mask msk A V ! r)"
proof -
  let ?c = "(r + B) mod (B * V)"
  let ?row = "map (\<lambda>c. msk ! (r mod B) ! (c mod B) * (if c = r then 0 else 1)) [0..<B * V]"
  have rV: "r < B * V"
  proof -
    have "B * A \<le> B * V" using A by (rule mult_le_mono2)
    with r show ?thesis by (rule less_le_trans)
  qed
  note ov = other_view [OF rV V B]
  have row: "positive_mask msk A V ! r = ?row"
    by (rule positive_mask_row [OF ws r B])
  have m: "r mod B < B" using B by simp
  have "?row ! ?c = msk ! (r mod B) ! (?c mod B) * 1"
    using ov(1,2) by simp
  also have "\<dots> = 1" using dg m by (simp add: ov(3))
  finally have "?row ! ?c = 1" .
  moreover have "?c < length ?row" using ov(1) by simp
  ultimately have mem: "1 \<in> set ?row" by (metis nth_mem)
  have "\<forall>x\<in>set ?row. 0 \<le> x"
  proof
    fix x assume "x \<in> set ?row"
    then obtain c where "x = msk ! (r mod B) ! (c mod B) * (if c = r then 0 else 1)" by auto
    moreover have "0 \<le> msk ! (r mod B) ! (c mod B)" using nn m B by simp
    ultimately show "0 \<le> x" by simp
  qed
  from sum_list_ge_member [OF this mem] show ?thesis unfolding row .
qed

lemma exp_sum_positive:
  assumes "r < length L" "r < n" "length (L ! r) = B * V" "r < B * V" "2 \<le> V" "0 < B"
  shows "0 < sum_list (exp_logits L n (B * V) ! r)"
proof -
  let ?c = "(r + B) mod (B * V)"
  let ?row = "map (\<lambda>c. exp (L ! r ! c) * (if c = r then 0 else 1)) [0..<B * V]"
  note ov = other_view [OF assms(4,5,6)]
  have row: "exp_logits L n (B * V) ! r = ?row"
    by (rule exp_logits_row [OF assms(1,2,3)])
  have "?row ! ?c = exp (L ! r ! ?c)" using ov(1,2) by simp
  moreover have "?c < length ?row" using ov(1) by simp
  ultimately have mem: "exp (L ! r ! ?c) \<in> set ?row" by (metis nth_mem)
  have "\<forall>x\<in>set ?row. 0 \<le> x" by auto
  from sum_list_ge_member [OF this mem] have "exp (L ! r ! ?c) \<le> sum_list ?row" .
  moreover have "0 < exp (L ! r ! ?c)" by simp
  ultimately show ?thesis unfolding row by linarith
qed

lemma anchors_ok:
  assumes "contrast_mode self = ''one'' \<or> contrast_mode self = ''all''"
    and "contrast_feature f = Inr cf"
  shows "\<exists>anchor. anchors (contrast_mode self) f cf
                     = Inr (anchor, if contrast_mode self = ''one'' then 1 else shape f ! 1)
                  \<and> length anchor
                      = shape f ! 0 * (if contrast_mode self = ''one'' then 1 else shape f ! 1)"
  using assms length_contrast_feature [OF assms(2)] by (auto simp: anchors_def)

lemma supcon_labels_finite:
  assumes n: "3 \<le> length (shape features)"
    and B: "2 \<le> shape features ! 0" and V: "2 \<le> shape features ! 1"
    and ls: "length labels = shape features ! 0"
    and mode: "contrast_mode self = ''one'' \<or> contrast_mode self = ''all''"
    and t: "sc_temperature self \<noteq> 0" and bt: "base_temperature self \<noteq> 0"
  shows "\<exists>loss. SupConLoss_forward self features (Some labels) None = Inr (Finite loss)"
proof -
  let ?B = "shape features ! 0" and ?V = "shape features ! 1"
  define A where "A = (if contrast_mode self = ''one'' then 1 else ?V)"
  define M where "M = map (\<lambda>a. map (\<lambda>b. if a = b then 1 else 0 :: real) labels) labels"
  have BV: "?B * ?V \<noteq> 0" using B V by simp
  from view3_ok [OF n BV] obtain f' where
    f': "view3 features = Inr f'" "shape f' ! 0 = ?B" "shape f' ! 1 = ?V" by blast
  have sm: "sample_mask ?B (Some labels) None = Inr M" and ws: "well_shaped M ?B"
    using label_mask [OF ls] by (simp_all add: M_def)
  have "contrast_feature f' \<noteq> Inl RuntimeError"
    using V f'(3) by (simp add: contrast_feature_def Let_def)
  then obtain cf where cf: "contrast_feature f' = Inr cf"
    by (auto simp: contrast_feature_def Let_def split: if_splits)
  have lcf: "length cf = ?B * ?V"
    using length_contrast_feature [OF cf] f'(2,3) by simp
  from anchors_ok [OF mode cf] obtain anchor where
    an: "anchors (contrast_mode self) f' cf = Inr (anchor, A)" "length anchor = ?B * A"
    using f'(2,3) by (auto simp: A_def)
  from stable_logits_shape [OF t, of anchor cf] obtain L where
    L: "stable_logits (sc_temperature self) anchor cf = Some L" "length L = ?B * A"
       "\<forall>r<?B * A. length (L ! r) = ?B * ?V"
    using an(2) lcf by auto
  have A: "A \<le> ?V" "0 < A" using V by (simp_all add: A_def)
  have Bp: "0 < ?B" using B by simp
  have nn: "\<forall>i<?B. \<forall>j<?B. 0 \<le> M ! i ! j" using ls by (simp add: M_def)
  have dg: "\<forall>i<?B. M ! i ! i = 1" using ls by (simp add: M_def)
  let ?pm = "positive_mask M A ?V"
  let ?el = "exp_logits L (?B * A) (?B * ?V)"
  have lpm: "length ?pm = ?B * A"
    using ls by (simp add: length_positive_mask M_def)
  have lel: "length ?el = ?B * A"
    using L(2) by (simp add: length_exp_logits)
  have rows: "\<forall>r<?B * A. 0 < sum_list (?el ! r) \<and> sum_list (?pm ! r) \<noteq> 0"
  proof (intro allI impI)
    fix r assume r: "r < ?B * A"
    have rV: "r < ?B * ?V"
    proof -
      have "?B * A \<le> ?B * ?V" using A(1) by (rule mult_le_mono2)
      with r show ?thesis by (rule less_le_trans)
    qed
    have "1 \<le> sum_list (?pm ! r)"
      by (rule positive_count_ge_one [OF ws r Bp V A(1) nn dg])
    moreover have "0 < sum_list (?el ! r)"
    proof (rule exp_sum_positive [OF _ r _ rV V Bp])
      show "r < length L" using r L(2) by simp
      show "length (L ! r) = ?B * ?V" using r L(3) by simp
    qed
    ultimately show "0 < sum_list (?el ! r) \<and> sum_list (?pm ! r) \<noteq> 0" by simp
  qed
  let ?mlpp = "mean_log_prob_pos ?pm L ?el"
  note mf = mean_log_prob_pos_finite [OF lpm L(2) lel rows]
  let ?loss = "map (scale (- (sc_temperature self / base_temperature self))) ?mlpp"
  have "0 < ?B * A" using B A(2) by simp
  then have "?loss \<noteq> []" using mf(1) by auto
  moreover have "\<forall>x\<in>set ?loss. \<exists>v. x = Finite v"
  proof
    fix x assume "x \<in> set ?loss"
    then obtain y where "y \<in> set ?mlpp" "x = scale (- (sc_temperature self / base_temperature self)) y"
      by auto
    moreover from this mf(2) obtain v where "y = Finite v" by blast
    ultimately show "\<exists>v. x = Finite v" by (simp add: scale_def)
  qed
  ultimately obtain loss where loss: "fl_mean ?loss = Finite loss"
    using fl_mean_finite by blast
  have "SupConLoss_forward self features (Some labels) None = Inr (fl_mean ?loss)"
    unfolding SupConLoss_forward_def
    using BV f' sm cf an ws bt L(1) by (simp add: Let_def)
  with loss show ?thesis by simp
qed

subsection \<open>The positive count of the supervised contrastive kernel\<close>

text \<open>
  Claim C6. For features of at least three dimensions with batch size \<open>B \<ge> 2\<close> and
  \<open>V \<ge> 2\<close> views and one label per sample (every class then has at least two
  view-instances), every anchor row of the tiled mask with the self-contrast entries zeroed
  sums to at least 1, for one anchor view and for all views as anchors. With a contrast
  mode of the kernel and temperatures other than 0, as the trainer's \<open>SupConLoss()\<close> has, no
  operation of the kernel is singular: the kernel returns a finite loss.
\<close>

theorem supcon_positive_count:
  assumes "3 \<le> length (shape features)"
    and "2 \<le> shape features ! 0" and "2 \<le> shape features ! 1"
    and "length labels = shape features ! 0"
  shows "\<exists>msk. sample_mask (shape features ! 0) (Some labels) None = Inr msk
           \<and> (\<forall>A. A = 1 \<or> A = shape features ! 1 \<longrightarrow>
                 (\<forall>r<shape features ! 0 * A.
                    1 \<le> sum_list (positive_mask msk A (shape features ! 1) ! r)))
           \<and> ((contrast_mode self = ''one'' \<or> contrast_mode self = ''all'')
                \<and> sc_temperature self \<noteq> 0 \<and> base_temperature self \<noteq> 0 \<longrightarrow>
                (\<exists>loss. SupConLoss_forward self features (Some labels) None = Inr (Finite loss)))
           \<and> (\<exists>loss. SupConLoss_forward SupConLoss features (Some labels) None
                        = Inr (Finite loss))"
proof -
  let ?B = "shape features ! 0" and ?V = "shape features ! 1"
  define M where "M = map (\<lambda>a. map (\<lambda>b. if a = b then 1 else 0 :: real) labels) labels"
  have sm: "sample_mask ?B (Some labels) None = Inr M" and ws: "well_shaped M ?B"
    using label_mask [OF assms(4)] by (simp_all add: M_def)
  have Bp: "0 < ?B" using assms(2) by simp
  have nn: "\<forall>i<?B. \<forall>j<?B. 0 \<le> M ! i ! j" using assms(4) by (simp add: M_def)
  have dg: "\<forall>i<?B. M ! i ! i = 1" using assms(4) by (simp add: M_def)
  have cnt: "1 \<le> sum_list (positive_mask M A ?V ! r)"
    if "A = 1 \<or> A = ?V" "r < ?B * A" for A r
  proof -
    have "A \<le> ?V" using that(1) assms(3) by auto
    then show ?thesis
      by (rule positive_count_ge_one [OF ws that(2) Bp assms(3) _ nn dg])
  qed
  have fin: "\<exists>loss. SupConLoss_forward self features (Some labels) None = Inr (Finite loss)"
    if "contrast_mode self = ''one'' \<or> contrast_mode self = ''all''"
      "sc_temperature self \<noteq> 0" "base_temperature self \<noteq> 0"
    using supcon_labels_finite [OF assms that] .
  have dflt: "\<exists>loss. SupConLoss_forward SupConLoss features (Some labels) None = Inr (Finite loss)"
    by (rule supcon_labels_finite [OF assms]) (simp_all add: SupConLoss_def)
  show ?thesis
    using sm cnt fin dflt by blast
qed

theorem supcon_positive_count_witness:
  "3 \<le> length (shape (Tensor [2, 2, 1] [1, 2, 3, 4]))
   \<and> 2 \<le> shape (Tensor [2, 2, 1] [1, 2, 3, 4]) ! 0
   \<and> 2 \<le> shape (Tensor [2, 2, 1] [1, 2, 3, 4]) ! 1
   \<and> length [0 :: int, 1] = shape (Tensor [2, 2, 1] [1, 2, 3, 4]) ! 0
   \<and> (\<forall>r<2 * 2. 1 \<le> sum_list (positive_mask [[1, 0], [0, 1]] 2 2 ! r))
   \<and> (\<exists>loss. SupConLoss_forward SupConLoss (Tensor [2, 2, 1] [1, 2, 3, 4]) (Some [0, 1]) None
                = Inr (Finite loss))"
proof -
  have h: "3 \<le> length (shape (Tensor [2, 2, 1] [1, 2, 3, 4]))"
    "2 \<le> shape (Tensor [2, 2, 1] [1, 2, 3, 4]) ! 0"
    "2 \<le> shape (Tensor [2, 2, 1] [1, 2, 3, 4]) ! 1"
    "length [0 :: int, 1] = shape (Tensor [2, 2, 1] [1, 2, 3, 4]) ! 0"
    by simp_all
  have m: "sample_mask (shape (Tensor [2, 2, 1] [1, 2, 3, 4]) ! 0) (Some [0, 1]) None
             = Inr [[1, 0], [0, 1]]"
    by (simp add: sample_mask_def)
  from supcon_positive_count [OF h, of SupConLoss] m
  have "\<forall>A. A = 1 \<or> A = shape (Tensor [2, 2, 1] [1, 2, 3, 4]) ! 1 \<longrightarrow>
                 (\<forall>r<shape (Tensor [2, 2, 1] [1, 2, 3, 4]) ! 0 * A.
                    1 \<le> sum_list (positive_mask [[1, 0], [0, 1]] A
                                     (shape (Tensor [2, 2, 1] [1, 2, 3, 4]) ! 1) ! r))"
    and l: "\<exists>loss. SupConLoss_forward SupConLoss (Tensor [2, 2, 1] [1, 2, 3, 4]) (Some [0, 1]) None
                = Inr (Finite loss)"
    by auto
  then have "\<forall>r<2 * 2. 1 \<le> sum_list (positive_mask [[1, 0], [0, 1]] 2 2 ! r)"
    by simp
  with h l show ?thesis by blast
qed

subsection \<open>The ValueErrors of the supervised contrastive kernel\<close>

lemma view3_cases:
  "view3 f =
     (if length (shape f) < 3 then Inl ValueError
      else if length (shape f) = 3 \<or> shape f ! 0 * shape f ! 1 \<noteq> 0
           then Inr (if length (shape f) = 3 then f
                     else Tensor [shape f ! 0, shape f ! 1,
                                  length (flat f) div (shape f ! 0 * shape f ! 1)] (flat f))
           else Inl RuntimeError)"
  by (auto simp: view3_def Let_def)

lemma view3_shape:
  assumes "view3 f = Inr f'"
  shows "shape f' ! 0 = shape f ! 0" "shape f' ! 1 = shape f ! 1"
  using assms by (auto simp: view3_def Let_def split: if_splits)

lemma sample_mask_ValueError:
  "sample_mask B labels msk = Inl ValueError \<longleftrightarrow>
     (labels \<noteq> None \<and> msk \<noteq> None) \<or> (labels \<noteq> None \<and> length (the labels) \<noteq> B)"
  by (auto simp: sample_mask_def Let_def)

lemma sample_mask_result:
  "sample_mask B labels msk = Inl ValueError \<or> (\<exists>m. sample_mask B labels msk = Inr m)"
  by (auto simp: sample_mask_def Let_def)

lemma contrast_feature_result:
  "contrast_feature f = (if shape f ! 1 = 0 then Inl RuntimeError
     else Inr (concat (map (\<lambda>v. map (\<lambda>b. feature_at f b v) [0..<shape f ! 0]) [0..<shape f ! 1])))"
  by (simp add: contrast_feature_def Let_def)

lemma anchors_ValueError:
  "anchors mode f cf = Inl ValueError \<longleftrightarrow> mode \<noteq> ''one'' \<and> mode \<noteq> ''all''"
  by (simp add: anchors_def)

lemma anchors_result:
  "anchors mode f cf = Inl ValueError \<or> (\<exists>an A. anchors mode f cf = Inr (an, A))"
  by (simp add: anchors_def)

lemma supcon_value_error_iff:
  "SupConLoss_forward self features labels msk = Inl ValueError \<longleftrightarrow>
     length (shape features) < 3
     \<or> ((length (shape features) = 3 \<or> shape features ! 0 * shape features ! 1 \<noteq> 0)
        \<and> ((labels \<noteq> None \<and> msk \<noteq> None)
           \<or> (labels \<noteq> None \<and> length (the labels) \<noteq> shape features ! 0)
           \<or> (shape features ! 1 \<noteq> 0
               \<and> contrast_mode self \<noteq> ''one'' \<and> contrast_mode self \<noteq> ''all'')))"
proof (cases "view3 features")
  case (Inl e)
  then have "SupConLoss_forward self features labels msk = Inl e"
    by (simp add: SupConLoss_forward_def)
  moreover have "e = ValueError \<longleftrightarrow> length (shape features) < 3"
    using Inl by (auto simp: view3_cases split: if_splits)
  moreover have "\<not> length (shape features) < 3 \<Longrightarrow>
      \<not> (length (shape features) = 3 \<or> shape features ! 0 * shape features ! 1 \<noteq> 0)"
    using Inl by (auto simp: view3_cases split: if_splits)
  ultimately show ?thesis by auto
next
  case (Inr f')
  note sh = view3_shape [OF Inr]
  have ok: "\<not> length (shape features) < 3"
    "length (shape features) = 3 \<or> shape features ! 0 * shape features ! 1 \<noteq> 0"
    using Inr by (auto simp: view3_cases split: if_splits)
  show ?thesis
  proof (cases "sample_mask (shape features ! 0) labels msk")
    case (Inl e)
    then have e: "e = ValueError" using sample_mask_result [of "shape features ! 0" labels msk] by auto
    have "SupConLoss_forward self features labels msk = Inl ValueError"
      using Inr Inl e sh by (simp add: SupConLoss_forward_def Let_def)
    moreover have "(labels \<noteq> None \<and> msk \<noteq> None)
                   \<or> (labels \<noteq> None \<and> length (the labels) \<noteq> shape features ! 0)"
      using Inl e sample_mask_ValueError by blast
    ultimately show ?thesis using ok by blast
  next
    case m: (Inr m)
    have nm: "\<not> ((labels \<noteq> None \<and> msk \<noteq> None)
                   \<or> (labels \<noteq> None \<and> length (the labels) \<noteq> shape features ! 0))"
      using m sample_mask_ValueError [of "shape features ! 0" labels msk] by simp
    show ?thesis
    proof (cases "shape features ! 1 = 0")
      case True
      then have "SupConLoss_forward self features labels msk = Inl RuntimeError"
        using Inr m sh by (simp add: SupConLoss_forward_def Let_def contrast_feature_result)
      then show ?thesis using ok nm True by simp
    next
      case False
      then obtain cf where cf: "contrast_feature f' = Inr cf"
        using sh by (simp add: contrast_feature_result)
      show ?thesis
      proof (cases "contrast_mode self \<noteq> ''one'' \<and> contrast_mode self \<noteq> ''all''")
        case True
        then have "anchors (contrast_mode self) f' cf = Inl ValueError"
          by (simp add: anchors_ValueError)
        then have "SupConLoss_forward self features labels msk = Inl ValueError"
          using Inr m sh cf by (simp add: SupConLoss_forward_def Let_def)
        then show ?thesis using ok True False by simp
      next
        case mode: False
        then obtain an A where an: "anchors (contrast_mode self) f' cf = Inr (an, A)"
          using anchors_result [of "contrast_mode self" f' cf] anchors_ValueError by blast
        have "SupConLoss_forward self features labels msk \<noteq> Inl ValueError"
          using Inr m sh cf an
          by (simp add: SupConLoss_forward_def Let_def split: option.splits)
        then show ?thesis using ok nm mode by simp
      qed
    qed
  qed
qed

lemma supcon_identity_mask:
  "SupConLoss_forward self features None None =
     SupConLoss_forward self features None
       (Some (map (map (\<lambda>b. if b then 1 else 0)) (eye (shape features ! 0))))"
proof (cases "view3 features")
  case (Inl e)
  then show ?thesis by (simp add: SupConLoss_forward_def)
next
  case (Inr f')
  have e: "sample_mask (shape f' ! 0) None None =
             sample_mask (shape f' ! 0) None
               (Some (map (map (\<lambda>b. if b then 1 else 0)) (eye (shape features ! 0))))"
    unfolding view3_shape(1) [OF Inr] by (simp add: sample_mask_def)
  show ?thesis
    unfolding SupConLoss_forward_def Inr bind_err_Inr Let_def e ..
qed


text \<open>
  Claim C7, as amended. The kernel raises ValueError when the features have fewer than 3
  dimensions; when both labels and mask are supplied or the number of labels differs from
  the batch size, provided the reshape of features of more than 3 dimensions succeeds (it
  fails with RuntimeError when the batch size times the number of views is 0); and when the
  contrast mode is neither \<open>one\<close> nor \<open>all\<close>, provided in addition that there is at least one
  view (the concatenation of no views fails with RuntimeError before the mode is looked at).
  It raises ValueError in no other case. With neither labels nor mask it computes what it
  computes for the identity matrix as mask.
\<close>

theorem supcon_value_errors:
  "(SupConLoss_forward self features labels msk = Inl ValueError \<longleftrightarrow>
      length (shape features) < 3
      \<or> ((length (shape features) = 3 \<or> shape features ! 0 * shape features ! 1 \<noteq> 0)
         \<and> ((labels \<noteq> None \<and> msk \<noteq> None)
            \<or> (labels \<noteq> None \<and> length (the labels) \<noteq> shape features ! 0)
            \<or> (shape features ! 1 \<noteq> 0
                \<and> contrast_mode self \<noteq> ''one'' \<and> contrast_mode self \<noteq> ''all''))))
   \<and> SupConLoss_forward self features None None =
       SupConLoss_forward self features None
         (Some (map (map (\<lambda>b. if b then 1 else 0)) (eye (shape features ! 0))))"
  using supcon_value_error_iff [of self features labels msk] supcon_identity_mask [of self features]
  by (rule conjI)

theorem supcon_value_errors_witness:
  "SupConLoss_forward SupConLoss (Tensor [2, 2] [1, 2, 3, 4]) None None = Inl ValueError
   \<and> SupConLoss_forward SupConLoss (Tensor [2, 2, 1] [1, 2, 3, 4]) (Some [0, 1])
        (Some [[1, 0], [0, 1]]) = Inl ValueError
   \<and> SupConLoss_forward SupConLoss (Tensor [2, 2, 1] [1, 2, 3, 4]) (Some [0, 1, 2]) None
        = Inl ValueError
   \<and> SupConLoss_forward (SupConLoss\<lparr>contrast_mode := ''two''\<rparr>) (Tensor [2, 2, 1] [1, 2, 3, 4])
        (Some [0, 1]) None = Inl ValueError
   \<and> SupConLoss_forward SupConLoss (Tensor [2, 2, 1] [1, 2, 3, 4]) (Some [0, 1]) None
        \<noteq> Inl ValueError"
proof -
  note v = supcon_value_errors [THEN conjunct1]
  have "SupConLoss_forward SupConLoss (Tensor [2, 2] [1, 2, 3, 4]) None None = Inl ValueError"
    by (subst v) simp
  moreover have "SupConLoss_forward SupConLoss (Tensor [2, 2, 1] [1, 2, 3, 4]) (Some [0, 1])
        (Some [[1, 0], [0, 1]]) = Inl ValueError"
    by (subst v) simp
  moreover have "SupConLoss_forward SupConLoss (Tensor [2, 2, 1] [1, 2, 3, 4]) (Some [0, 1, 2]) None
        = Inl ValueError"
    by (subst v) simp
  moreover have "SupConLoss_forward (SupConLoss\<lparr>contrast_mode := ''two''\<rparr>)
        (Tensor [2, 2, 1] [1, 2, 3, 4]) (Some [0, 1]) None = Inl ValueError"
    by (subst v) simp
  moreover have "SupConLoss_forward SupConLoss (Tensor [2, 2, 1] [1, 2, 3, 4]) (Some [0, 1]) None
        \<noteq> Inl ValueError"
    by (subst v) (simp add: SupConLoss_def)
  ultimately show ?thesis by blast
qed

text \<open>
  With no view the kernel fails in the concatenation of the views, whatever the contrast
  mode; with an empty batch of four dimensions it fails in the reshape, although labels and
  mask are both supplied.
\<close>

theorem supcon_value_errors_counterexample:
  "contrast_mode (SupConLoss\<lparr>contrast_mode := ''two''\<rparr>) \<noteq> ''one''
   \<and> contrast_mode (SupConLoss\<lparr>contrast_mode := ''two''\<rparr>) \<noteq> ''all''
   \<and> SupConLoss_forward (SupConLoss\<lparr>contrast_mode := ''two''\<rparr>) (Tensor [2, 0, 3] []) None None
       = Inl RuntimeError
   \<and> SupConLoss_forward SupConLoss (Tensor [0, 2, 3, 4] []) (Some []) (Some [])
       = Inl RuntimeError"
  by (simp add: SupConLoss_forward_def view3_def sample_mask_def contrast_feature_def eye_def
      Let_def)

subsection \<open>The logits of the pair constructor\<close>

text \<open>
  Claim C5. For \<open>2 * N\<close> embeddings with \<open>N \<ge> 1\<close> and two views, the constructor returns
  \<open>2 * N\<close> rows of \<open>2 * N - 1\<close> logits and \<open>2 * N\<close> targets that are all zero. Rows \<open>i\<close> and
  \<open>i + N\<close> are the two views of a sample: column 0 of row \<open>i\<close> is the cosine similarity of
  row \<open>i\<close> and its partner, the other \<open>2 * N - 2\<close> columns are the similarities to all
  remaining rows in order, and every entry is divided by the temperature: a finite number
  for a temperature other than 0.
\<close>

theorem info_nce_logits_positive_first:
  assumes "length features = 2 * N" and "1 \<le> N"
  shows "\<exists>logits. info_nce_logits features 2 t = Inr (logits, replicate (2 * N) 0)
           \<and> length logits = 2 * N
           \<and> (\<forall>i<2 * N.
                 length (logits ! i) = 2 * N - 1
                 \<and> partner N i = (if i < N then i + N else i - N)
                 \<and> logits ! i ! 0 = fl_div (cos_sim (features ! i) (features ! partner N i)) t
                 \<and> tl (logits ! i) =
                     map (\<lambda>j. fl_div (cos_sim (features ! i) (features ! j)) t)
                       (filter (\<lambda>j. j \<noteq> i \<and> j \<noteq> partner N i) [0..<2 * N])
                 \<and> (t \<noteq> 0 \<longrightarrow>
                      logits ! i ! 0 = Finite (cos_sim (features ! i) (features ! partner N i) / t)
                      \<and> tl (logits ! i) =
                          map (\<lambda>j. Finite (cos_sim (features ! i) (features ! j) / t))
                            (filter (\<lambda>j. j \<noteq> i \<and> j \<noteq> partner N i) [0..<2 * N])))"
proof -
  let ?rest = "\<lambda>i. filter (\<lambda>j. j \<noteq> i \<and> j \<noteq> partner N i) [0..<2 * N]"
  let ?logits = "map (\<lambda>i. map (\<lambda>j. fl_div (cos_sim (features ! i) (features ! j)) t)
                         (partner N i # ?rest i)) [0..<2 * N]"
  have pos: "0 < N" using assms(2) by simp
  have r: "info_nce_logits features 2 t = Inr (?logits, replicate (2 * N) 0)"
    by (rule info_nce_logits_pairs [OF assms(1) pos])
  have len: "length (?rest i) = 2 * N - 2" if "i < 2 * N" for i
    using length_negatives_row [OF that] negatives_row [OF that] by simp
  have row: "?logits ! i = map (\<lambda>j. fl_div (cos_sim (features ! i) (features ! j)) t)
                                (partner N i # ?rest i)" if "i < 2 * N" for i
    using that by simp
  have "\<forall>i<2 * N. length (?logits ! i) = 2 * N - 1
        \<and> partner N i = (if i < N then i + N else i - N)
        \<and> ?logits ! i ! 0 = fl_div (cos_sim (features ! i) (features ! partner N i)) t
        \<and> tl (?logits ! i) = map (\<lambda>j. fl_div (cos_sim (features ! i) (features ! j)) t) (?rest i)
        \<and> (t \<noteq> 0 \<longrightarrow>
              ?logits ! i ! 0 = Finite (cos_sim (features ! i) (features ! partner N i) / t)
              \<and> tl (?logits ! i) =
                  map (\<lambda>j. Finite (cos_sim (features ! i) (features ! j) / t)) (?rest i))"
  proof (intro allI impI conjI)
    fix i assume i: "i < 2 * N"
    show "length (?logits ! i) = 2 * N - 1"
      unfolding row [OF i] using len [OF i] pos by simp
    show "partner N i = (if i < N then i + N else i - N)"
      by (rule partner_eq [OF i])
    show "?logits ! i ! 0 = fl_div (cos_sim (features ! i) (features ! partner N i)) t"
      unfolding row [OF i] by simp
    show "tl (?logits ! i) = map (\<lambda>j. fl_div (cos_sim (features ! i) (features ! j)) t) (?rest i)"
      unfolding row [OF i] by simp
    assume t: "t \<noteq> 0"
    show "?logits ! i ! 0 = Finite (cos_sim (features ! i) (features ! partner N i) / t)"
      unfolding row [OF i] using t by (simp add: fl_div_def)
    show "tl (?logits ! i) =
            map (\<lambda>j. Finite (cos_sim (features ! i) (features ! j) / t)) (?rest i)"
      unfolding row [OF i] using t by (simp add: fl_div_def)
  qed
  moreover have "length ?logits = 2 * N" by simp
  ultimately show ?thesis using r by blast
qed

text \<open>
  Two samples in two views at temperature \<open>1 / 2\<close>: row 0 holds the similarity 1 to its
  partner, row 2, first, then the similarities 0 and -1 to rows 1 and 3, all doubled.
\<close>

theorem info_nce_logits_positive_first_witness:
  "length [[1 :: real, 0], [0, 1], [1, 0], [- 1, 0]] = 2 * 2 \<and> (1 :: nat) \<le> 2
   \<and> (\<exists>logits. info_nce_logits [[1, 0], [0, 1], [1, 0], [- 1, 0]] 2 (1 / 2)
                  = Inr (logits, [0, 0, 0, 0])
         \<and> length logits = 4
         \<and> logits ! 0 = [Finite 2, Finite 0, Finite (- 2)])"
proof -
  let ?F = "[[1 :: real, 0], [0, 1], [1, 0], [- 1, 0]]"
  have h: "length ?F = 2 * 2" "(1 :: nat) \<le> 2" by simp_all
  from info_nce_logits_positive_first [OF h, of "1 / 2"] obtain logits where
    l: "info_nce_logits ?F 2 (1 / 2) = Inr (logits, replicate (2 * 2) 0)"
       "length logits = 2 * 2"
    and rows: "\<forall>i<2 * 2. length (logits ! i) = 2 * 2 - 1
         \<and> logits ! i ! 0 = fl_div (cos_sim (?F ! i) (?F ! partner 2 i)) (1 / 2)
         \<and> tl (logits ! i) = map (\<lambda>j. fl_div (cos_sim (?F ! i) (?F ! j)) (1 / 2))
                               (filter (\<lambda>j. j \<noteq> i \<and> j \<noteq> partner 2 i) [0..<2 * 2])"
    by blast
  have n: "normalize [1, 0] = [1, 0]" "normalize [0, 1] = [0, 1]" "normalize [- 1, 0] = [- 1, 0]"
    by (simp_all add: normalize_def)
  have c: "cos_sim [1, 0] [1, 0] = 1" "cos_sim [1, 0] [0, 1] = 0" "cos_sim [1, 0] [- 1, 0] = - 1"
    by (simp_all add: cos_sim_def n dot_def)
  have p: "partner 2 0 = 2" by (simp add: partner_def)
  have u: "filter (\<lambda>j. j \<noteq> 0 \<and> j \<noteq> partner 2 0) [0..<2 * 2] = [1, 3]"
    unfolding p by (simp add: upt_conv_Cons)
  from rows have "length (logits ! 0) = 2 * 2 - 1
         \<and> logits ! 0 ! 0 = fl_div (cos_sim (?F ! 0) (?F ! partner 2 0)) (1 / 2)
         \<and> tl (logits ! 0) = map (\<lambda>j. fl_div (cos_sim (?F ! 0) (?F ! j)) (1 / 2))
                               (filter (\<lambda>j. j \<noteq> 0 \<and> j \<noteq> partner 2 0) [0..<2 * 2])"
    by simp
  then have r0: "length (logits ! 0) = 3"
    "logits ! 0 ! 0 = Finite 2" "tl (logits ! 0) = [Finite 0, Finite (- 2)]"
    unfolding u by (simp_all add: p c fl_div_def)
  then have "logits ! 0 \<noteq> []" by auto
  then have "logits ! 0 = logits ! 0 ! 0 # tl (logits ! 0)"
    by (cases "logits ! 0") simp_all
  then have "logits ! 0 = [Finite 2, Finite 0, Finite (- 2)]" using r0 by simp
  moreover have "replicate (2 * 2) (0 :: nat) = [0, 0, 0, 0]" by (simp add: numeral_eq_Suc)
  ultimately show ?thesis using h l by auto
qed

text \<open>
  Claim C8. In a batch step on \<open>N\<close> samples in two views, with \<open>w = sup_con_weight[stage_i]\<close>,
  the total loss is \<open>(1 - w) * unsupervised + w * supervised\<close> (not a finite number when
  a term is not). The unsupervised term is the cross entropy of the logits of the pair
  constructor. The supervised term is the kernel of
  the supervised contrastive loss exactly when \<open>w > 0\<close>, applied to the labelled rows of
  both views stacked as two-view groups (sample \<open>k\<close> of the stacked tensor has the \<open>k\<close>-th
  labelled row of the first view as view 0 and of the second view as view 1) with the labels
  of the labelled samples; it is the constant 0 otherwise.
\<close>

theorem batch_loss_composition:
  assumes "length features = 2 * length m" and "length labels = length m"
    and "py_index (sup_con_weight a) stage = Inr w"
  shows "batch_loss E a stage features labels m =
           bind_err (con_feats a features m) (\<lambda>cf.
           bind_err (info_nce_logits cf (n_views a) (temperature a)) (\<lambda>(logits, targets).
           bind_err (cross_entropy E logits targets) (\<lambda>contrastive_loss.
           bind_err (if w > 0
                     then SupConLoss_forward SupConLoss
                            (stack_views (cols features)
                               (select_row (take (length m) features) m)
                               (select_row (drop (length m) features) m))
                            (Some (select_row labels m)) None
                     else Inr (Finite 0)) (\<lambda>sup_con_loss.
             Inr (total_loss w contrastive_loss sup_con_loss)))))
         \<and> (\<forall>c s. total_loss w (Finite c) (Finite s) = Finite ((1 - w) * c + w * s))
         \<and> (\<forall>k<length (select_row (take (length m) features) m).
               (\<forall>r\<in>set features. length r = cols features) \<longrightarrow>
               feature_at (stack_views (cols features)
                             (select_row (take (length m) features) m)
                             (select_row (drop (length m) features) m)) k 0
                 = select_row (take (length m) features) m ! k
               \<and> feature_at (stack_views (cols features)
                             (select_row (take (length m) features) m)
                             (select_row (drop (length m) features) m)) k 1
                 = select_row (drop (length m) features) m ! k)"
proof (intro conjI allI impI)
  let ?f1 = "select_row (take (length m) features) m"
  let ?f2 = "select_row (drop (length m) features) m"
  have ic: "index_chunks features m = Inr (?f1, ?f2)"
    by (rule index_chunks_even [OF assms(1) refl])
  have len: "length ?f1 = length ?f2"
  proof -
    have "length (take (length m) features) = length m" "length (drop (length m) features) = length m"
      using assms(1) by simp_all
    then have "?f1 = map (\<lambda>i. take (length m) features ! i) (filter (\<lambda>i. m ! i) [0..<length m])"
      "?f2 = map (\<lambda>i. drop (length m) features ! i) (filter (\<lambda>i. m ! i) [0..<length m])"
      using select_row_nth [of m "take (length m) features"]
        select_row_nth [of m "drop (length m) features"] by simp_all
    then show ?thesis by simp
  qed
  have sup: "sup_con_term w features labels m =
               (if w > 0
                then SupConLoss_forward SupConLoss (stack_views (cols features) ?f1 ?f2)
                       (Some (select_row labels m)) None
                else Inr (Finite 0))"
    using len assms(2) by (simp add: sup_con_term_def ic bool_index_def)
  show "batch_loss E a stage features labels m =
           bind_err (con_feats a features m) (\<lambda>cf.
           bind_err (info_nce_logits cf (n_views a) (temperature a)) (\<lambda>(logits, targets).
           bind_err (cross_entropy E logits targets) (\<lambda>contrastive_loss.
           bind_err (if w > 0
                     then SupConLoss_forward SupConLoss (stack_views (cols features) ?f1 ?f2)
                            (Some (select_row labels m)) None
                     else Inr (Finite 0)) (\<lambda>sup_con_loss.
             Inr (total_loss w contrastive_loss sup_con_loss)))))"
    by (simp only: batch_loss_def bind_err_Inr assms(3) sup)
  show "total_loss w (Finite c) (Finite s) = Finite ((1 - w) * c + w * s)" for c s
    by (simp add: total_loss_def)
  fix k
  assume k: "k < length ?f1" and r: "\<forall>r\<in>set features. length r = cols features"
  have s: "set ?f1 \<subseteq> set features" "set ?f2 \<subseteq> set features"
    by (auto simp: select_row_def dest!: set_zip_leftD in_set_takeD in_set_dropD)
  have "feature_at (stack_views (cols features) ?f1 ?f2) k 0 = ?f1 ! k
        \<and> feature_at (stack_views (cols features) ?f1 ?f2) k 1 = ?f2 ! k"
    by (rule feature_at_stack_views [OF len k]) (use r s in auto)
  then show "feature_at (stack_views (cols features) ?f1 ?f2) k 0 = ?f1 ! k"
    and "feature_at (stack_views (cols features) ?f1 ?f2) k 1 = ?f2 ! k"
    by simp_all
qed

text \<open>
  Two labelled samples in two views, all samples in the unsupervised loss, in the example
  environment, whose cross entropy is 2: with weight \<open>1 / 2\<close> the supervised kernel returns
  a finite \<open>s\<close> and the total is \<open>(1 - 1 / 2) * 2 + 1 / 2 * s\<close>; with weight 0 the total is 2.
\<close>

theorem batch_loss_composition_witness:
  "length [[1 :: real], [2], [3], [4]] = 2 * length [True, True]
   \<and> length [5 :: int, 6] = length [True, True]
   \<and> py_index (sup_con_weight (example_args\<lparr>contrast_unlabel_only := False,
                                               sup_con_weight := [1 / 2]\<rparr>)) 0 = Inr (1 / 2)
   \<and> py_index (sup_con_weight (example_args\<lparr>contrast_unlabel_only := False\<rparr>)) 0 = Inr 0
   \<and> (\<exists>s. SupConLoss_forward SupConLoss (Tensor [2, 2, 1] [1, 3, 2, 4]) (Some [5, 6]) None
              = Inr (Finite s)
         \<and> batch_loss example_env
              (example_args\<lparr>contrast_unlabel_only := False, sup_con_weight := [1 / 2]\<rparr>) 0
              [[1], [2], [3], [4]] [5, 6] [True, True]
            = Inr (Finite ((1 - 1 / 2) * 2 + 1 / 2 * s)))
   \<and> batch_loss example_env (example_args\<lparr>contrast_unlabel_only := False\<rparr>) 0
        [[1], [2], [3], [4]] [5, 6] [True, True]
      = Inr (Finite 2)"
proof -
  let ?F = "[[1 :: real], [2], [3], [4]]"
  let ?a = "example_args\<lparr>contrast_unlabel_only := False, sup_con_weight := [1 / 2]\<rparr>"
  let ?b = "example_args\<lparr>contrast_unlabel_only := False\<rparr>"
  have h: "length ?F = 2 * length [True, True]" "length [5 :: int, 6] = length [True, True]"
    by simp_all
  have wa: "py_index (sup_con_weight ?a) 0 = Inr (1 / 2)"
    and wb: "py_index (sup_con_weight ?b) 0 = Inr 0"
    by (simp_all add: py_index_def example_args_def)
  have cf: "con_feats ?a ?F [True, True] = Inr ?F" "con_feats ?b ?F [True, True] = Inr ?F"
    by (simp_all add: con_feats_def)
  have nv: "n_views ?a = 2" "temperature ?a = 1" "n_views ?b = 2" "temperature ?b = 1"
    by (simp_all add: example_args_def)
  have "\<exists>lg. info_nce_logits ?F 2 1 = Inr (lg, replicate (2 * 2) 0)"
    using info_nce_logits_pairs [of ?F 2 1] by simp
  then obtain lg where i: "info_nce_logits ?F 2 1 = Inr (lg, replicate (2 * 2) 0)" by blast
  have ce: "cross_entropy example_env = (\<lambda>l t. Inr (Finite 2))"
    by (simp add: example_env_def)
  have st: "stack_views (cols ?F) (select_row (take (length [True, True]) ?F) [True, True])
              (select_row (drop (length [True, True]) ?F) [True, True])
              = Tensor [2, 2, 1] [1, 3, 2, 4]"
    "select_row [5 :: int, 6] [True, True] = [5, 6]"
    by (simp_all add: stack_views_def cols_def select_row_def)
  have "\<exists>s. SupConLoss_forward SupConLoss (Tensor [2, 2, 1] [1, 3, 2, 4]) (Some [5, 6]) None
              = Inr (Finite s)"
    by (rule supcon_labels_finite) (simp_all add: SupConLoss_def)
  then obtain s where s: "SupConLoss_forward SupConLoss (Tensor [2, 2, 1] [1, 3, 2, 4])
                            (Some [5, 6]) None = Inr (Finite s)" by blast
  have "batch_loss example_env ?a 0 ?F [5, 6] [True, True]
          = Inr (Finite ((1 - 1 / 2) * 2 + 1 / 2 * s))"
    unfolding batch_loss_composition [OF h wa, of example_env, THEN conjunct1]
    unfolding cf nv bind_err_Inr i ce st s
    by (simp add: total_loss_def)
  moreover have "batch_loss example_env ?b 0 ?F [5, 6] [True, True] = Inr (Finite 2)"
    unfolding batch_loss_composition [OF h wb, of example_env, THEN conjunct1]
    unfolding cf nv bind_err_Inr i ce
    by (simp add: total_loss_def)
  ultimately show ?thesis using h wa wb s by blast
qed

lemma fit_gate_in_store:
  assumes "fit E a self fs = Inr t"
  shows "\<forall>g\<in>set (gates (log t)). set (snd g) \<subseteq> dom (files t)"
proof (rule fit_invariant [OF assms, where P = "\<lambda>st. \<forall>g\<in>set (gates (log st)). set (snd g) \<subseteq> dom (files st)"])
  show "\<forall>g\<in>set (gates (log (start E self fs))). set (snd g) \<subseteq> dom (files (start E self fs))"
    by (simp add: start_def gates_def)
next
  fix u st3 :: "('a, 'b, 'c, 'd) run"
  assume "\<forall>g\<in>set (gates (log u)). set (snd g) \<subseteq> dom (files u)"
    "files st3 = files u" "gates (log st3) = gates (log u)"
  then show "\<forall>g\<in>set (gates (log st3)). set (snd g) \<subseteq> dom (files st3)" by simp
next
  fix st3 :: "('a, 'b, 'c, 'd) run" and e
  assume ih: "\<forall>g\<in>set (gates (log st3)). set (snd g) \<subseteq> dom (files st3)"
  let ?acc = "eval_kmeans E (r_model st3) (r_gmm st3) (stage_i self) e"
  let ?new = "latest_files a (stage_i self)
                @ (if ?acc > best_test_acc_lab st3 then best_files a (stage_i self) else [])"
  have gl: "gates (log (eval_gate E a (stage_i self) e st3)) = gates (log st3) @ [(?acc, ?new)]"
    by (simp add: eval_gate_log gates_append) (simp add: gates_def)
  have mono: "dom (files st3) \<subseteq> dom (files (eval_gate E a (stage_i self) e st3))"
    by (auto simp: eval_gate_files)
  have new: "set ?new \<subseteq> dom (files (eval_gate E a (stage_i self) e st3))"
    by (auto simp: eval_gate_files latest_files_def best_files_def)
  show "\<forall>g\<in>set (gates (log (eval_gate E a (stage_i self) e st3))).
          set (snd g) \<subseteq> dom (files (eval_gate E a (stage_i self) e st3))"
    unfolding gl
  proof
    fix g assume "g \<in> set (gates (log st3) @ [(?acc, ?new)])"
    then consider "g \<in> set (gates (log st3))" | "g = (?acc, ?new)" by auto
    then show "set (snd g) \<subseteq> dom (files (eval_gate E a (stage_i self) e st3))"
    proof cases
      case 1
      with ih have "set (snd g) \<subseteq> dom (files st3)" by blast
      then show ?thesis using mono by (rule subset_trans)
    next
      case 2
      with new show ?thesis by simp
    qed
  qed
qed

lemma ex_fit5_files:
  "map_sum id (\<lambda>t. (files t ''out/model/m_stage_0_model_best.pt'',
                     files t ''out/model/m_stage_0_proj_head_best.pt''))
     (fit example_env (example_args\<lparr>epochs := 5\<rparr>) example_trainer Map.empty) =
     Inr (Some (), Some ())"
proof -
  have s: "stage_i example_trainer = 0" by (simp add: example_trainer_def)
  have u: "map int [0..<nat 5] = [0, 1, 2, 3, 4]" by (simp add: upt_conv_Cons)
  show ?thesis
    apply (subst ex_env)
    unfolding fit_def ex_fields s u ex_start'
    by (simp add: ex_epoch ex_acc)
qed

subsection \<open>The best checkpoint\<close>

text \<open>
  Claim C4. The tracker \<open>best_test_acc_lab\<close> is 0 when a stage starts. At an evaluation gate
  the best checkpoint is written exactly when the accuracy on the old classes is strictly
  above the tracker, which then becomes that accuracy; so it never decreases. The gate puts
  the current parameters into the store under the latest names, and under the best names
  exactly in that case; every file a gate has saved is in the store at the end. For a whole
  stage: a gate writes the best files, after the latest files, exactly when its accuracy
  is above 0 and above the accuracy of every earlier gate, and the tracker ends as the
  greatest accuracy seen, or 0. No latest file is a best file. For the accuracies
  0.1, 0.05, 0.3, 0.2, 0.4 the best files are written at 0.1, 0.3 and 0.4 only.
\<close>

theorem best_checkpoint_tracking:
  assumes "fit E a self fs = Inr t"
  shows "best_test_acc_lab (start E self fs) = 0
         \<and> (\<forall>k<length (gates (log t)).
               snd (gates (log t) ! k) =
                 latest_files a (stage_i self) @
                   (if 0 < fst (gates (log t) ! k)
                       \<and> (\<forall>j<k. fst (gates (log t) ! j) < fst (gates (log t) ! k))
                    then best_files a (stage_i self) else []))
         \<and> best_test_acc_lab t = Max (insert 0 (fst ` set (gates (log t))))
         \<and> (\<forall>e st. best_test_acc_lab (eval_gate E a (stage_i self) e st) =
                        max (best_test_acc_lab st)
                            (eval_kmeans E (r_model st) (r_gmm st) (stage_i self) e)
                    \<and> log (eval_gate E a (stage_i self) e st) =
                        log st @ [Gate e (eval_kmeans E (r_model st) (r_gmm st) (stage_i self) e)
                          (latest_files a (stage_i self) @
                            (if eval_kmeans E (r_model st) (r_gmm st) (stage_i self) e
                                  > best_test_acc_lab st
                             then best_files a (stage_i self) else []))]
                    \<and> files (eval_gate E a (stage_i self) e st) =
                        (if eval_kmeans E (r_model st) (r_gmm st) (stage_i self) e
                              > best_test_acc_lab st
                         then (files st)
                                (save_file a (stage_i self) ''_model.pt'' \<mapsto> r_model st,
                                 save_file a (stage_i self) ''_model_proj_head.pt'' \<mapsto> r_head st,
                                 save_file a (stage_i self) ''_model_best.pt'' \<mapsto> r_model st,
                                 save_file a (stage_i self) ''_proj_head_best.pt'' \<mapsto> r_head st)
                         else (files st)
                                (save_file a (stage_i self) ''_model.pt'' \<mapsto> r_model st,
                                 save_file a (stage_i self) ''_model_proj_head.pt'' \<mapsto> r_head st)))
         \<and> (\<forall>g\<in>set (gates (log t)). set (snd g) \<subseteq> dom (files t))
         \<and> set (latest_files a (stage_i self)) \<inter> set (best_files a (stage_i self)) = {}"
proof -
  have tr: "tracked a (stage_i self) (best_test_acc_lab t) (gates (log t))"
    by (rule fit_tracked [OF assms])
  have "Max (insert 0 (fst ` set (gates (log t)))) = best_test_acc_lab t"
  proof (rule Max_eqI)
    show "finite (insert 0 (fst ` set (gates (log t))))" by simp
    show "y \<le> best_test_acc_lab t" if "y \<in> insert 0 (fst ` set (gates (log t)))" for y
      using tr that by (auto simp: tracked_def)
    show "best_test_acc_lab t \<in> insert 0 (fst ` set (gates (log t)))"
      using tr by (simp add: tracked_def)
  qed
  moreover have "best_test_acc_lab (start E self fs) = 0" by (simp add: start_def)
  moreover have "\<forall>k<length (gates (log t)).
               snd (gates (log t) ! k) =
                 latest_files a (stage_i self) @
                   (if 0 < fst (gates (log t) ! k)
                       \<and> (\<forall>j<k. fst (gates (log t) ! j) < fst (gates (log t) ! k))
                    then best_files a (stage_i self) else [])"
    using tr by (simp add: tracked_def)
  ultimately show ?thesis
    using latest_best_disjoint [of a "stage_i self"] fit_gate_in_store [OF assms]
      eval_gate_best [of E a "stage_i self"] eval_gate_log [of E a "stage_i self"]
      eval_gate_files [of E a "stage_i self"]
    by (intro conjI allI) simp_all
qed

theorem best_checkpoint_tracking_witness:
  "\<exists>t. fit example_env (example_args\<lparr>epochs := 5\<rparr>) example_trainer Map.empty = Inr t
       \<and> map fst (gates (log t)) = [1 / 10, 1 / 20, 3 / 10, 1 / 5, 2 / 5]
       \<and> map (\<lambda>g. ''out/model/m_stage_0_model_best.pt'' \<in> set (snd g)
                   \<and> ''out/model/m_stage_0_proj_head_best.pt'' \<in> set (snd g)) (gates (log t))
           = [True, False, True, False, True]
       \<and> best_test_acc_lab t = Max (insert 0 (fst ` set (gates (log t))))
       \<and> best_test_acc_lab t = 2 / 5
       \<and> files t ''out/model/m_stage_0_model_best.pt'' = Some ()
       \<and> files t ''out/model/m_stage_0_proj_head_best.pt'' = Some ()
       \<and> (\<forall>g\<in>set (gates (log t)). set (snd g) \<subseteq> dom (files t))"
proof -
  from ex_fit5 obtain t where
    t: "fit example_env (example_args\<lparr>epochs := 5\<rparr>) example_trainer Map.empty = Inr t"
    and g: "gates (log t) =
       [(1 / 10, [''out/model/m_stage_0_model.pt'', ''out/model/m_stage_0_model_proj_head.pt'',
                     ''out/model/m_stage_0_model_best.pt'', ''out/model/m_stage_0_proj_head_best.pt'']),
        (1 / 20, [''out/model/m_stage_0_model.pt'', ''out/model/m_stage_0_model_proj_head.pt'']),
        (3 / 10, [''out/model/m_stage_0_model.pt'', ''out/model/m_stage_0_model_proj_head.pt'',
                     ''out/model/m_stage_0_model_best.pt'', ''out/model/m_stage_0_proj_head_best.pt'']),
        (1 / 5, [''out/model/m_stage_0_model.pt'', ''out/model/m_stage_0_model_proj_head.pt'']),
        (2 / 5, [''out/model/m_stage_0_model.pt'', ''out/model/m_stage_0_model_proj_head.pt'',
                     ''out/model/m_stage_0_model_best.pt'', ''out/model/m_stage_0_proj_head_best.pt''])]"
    and b: "best_test_acc_lab t = 2 / 5"
    by (cases "fit example_env (example_args\<lparr>epochs := 5\<rparr>) example_trainer Map.empty") auto
  have f: "files t ''out/model/m_stage_0_model_best.pt'' = Some ()"
    "files t ''out/model/m_stage_0_proj_head_best.pt'' = Some ()"
    using ex_fit5_files t by simp_all
  note c = best_checkpoint_tracking [OF t]
  have m: "best_test_acc_lab t = Max (insert 0 (fst ` set (gates (log t))))"
    by (rule c [THEN conjunct2, THEN conjunct2, THEN conjunct1])
  have d: "\<forall>g\<in>set (gates (log t)). set (snd g) \<subseteq> dom (files t)"
    by (rule c [THEN conjunct2, THEN conjunct2, THEN conjunct2, THEN conjunct2, THEN conjunct1])
  have gm: "map fst (gates (log t)) = [1 / 10, 1 / 20, 3 / 10, 1 / 5, 2 / 5]"
    unfolding g by simp
  have gf: "map (\<lambda>g. ''out/model/m_stage_0_model_best.pt'' \<in> set (snd g)
                   \<and> ''out/model/m_stage_0_proj_head_best.pt'' \<in> set (snd g)) (gates (log t))
           = [True, False, True, False, True]"
    unfolding g by simp
  show ?thesis
    by (rule exI [of _ t]) (intro conjI t gm gf m b f d)
qed

subsection \<open>The names of the checkpoint files\<close>

text \<open>
  Claim C2, as amended. The trainer of stage \<open>i\<close> writes, at every gate, the latest files
  \<open>{model_name}_stage_{i}_model.pt\<close> and \<open>{model_name}_stage_{i}_model_proj_head.pt\<close>, and when
  the accuracy improved also the best files \<open>{model_name}_stage_{i}_model_best.pt\<close> and
  \<open>{model_name}_stage_{i}_proj_head_best.pt\<close> (the best projection head has no \<open>model_\<close> in
  its name), all joined to \<open>save_path\<close> and \<open>model\<close>; it writes no other file. The reader joins
  the same names the same way, and the lifecycle manager of stage \<open>i\<close> reads exactly the
  two best files of stage \<open>i - 1\<close>: it takes the parameters the store holds under these two
  names and fails with FileNotFoundError when one of them is missing. Every file a gate
  reports is in the store afterwards. For a save path that is not empty and does not end in a
  slash and a model name that does not start with one, the paths are
  \<open>{save_path}/model/{model_name}_stage_{i}_{model|model_proj_head}.pt\<close> and
  \<open>{save_path}/model/{model_name}_stage_{i}_{model|proj_head}_best.pt\<close>.
\<close>

theorem checkpoint_names:
  "load_file a i s = save_file a i s
   \<and> (fit E a self fs = Inr t \<longrightarrow>
        (\<forall>g\<in>set (gates (log t)).
            snd g = latest_files a (stage_i self)
            \<or> snd g = latest_files a (stage_i self) @ best_files a (stage_i self))
        \<and> (\<forall>g\<in>set (gates (log t)). set (snd g) \<subseteq> dom (files t))
        \<and> dom (files t) \<subseteq> dom fs \<union> set (latest_files a (stage_i self))
                                  \<union> set (best_files a (stage_i self)))
   \<and> (PromptCCD_Model_init gv G fs' a (Some prev) i = Inr tr \<longrightarrow>
        loaded tr = best_files a (i - 1)
        \<and> fs' (save_file a (i - 1) ''_model_best.pt'') = Some (model tr)
        \<and> fs' (save_file a (i - 1) ''_proj_head_best.pt'') = Some (projection_head tr))
   \<and> (fs' (save_file a (i - 1) ''_model_best.pt'') = None
        \<or> fs' (save_file a (i - 1) ''_proj_head_best.pt'') = None \<longrightarrow>
        PromptCCD_Model_init gv G fs' a (Some prev) i = Inl FileNotFoundError)
   \<and> (save_path a \<noteq> [] \<and> last (save_path a) \<noteq> CHR ''/''
        \<and> (ccd_model a = [] \<or> hd (ccd_model a) \<noteq> CHR ''/'') \<longrightarrow>
        latest_files a i = [conventional a i ''model'' False,
                            conventional a i ''model_proj_head'' False]
        \<and> best_files a i = [conventional a i ''model'' True,
                             conventional a i ''proj_head'' True])"
proof (intro conjI impI)
  show "load_file a i s = save_file a i s" by (rule load_file_save_file)
next
  assume f: "fit E a self fs = Inr t"
  show "\<forall>g\<in>set (gates (log t)).
            snd g = latest_files a (stage_i self)
            \<or> snd g = latest_files a (stage_i self) @ best_files a (stage_i self)"
    by (rule fit_gate_files [OF f])
  show "dom (files t) \<subseteq> dom fs \<union> set (latest_files a (stage_i self))
                                  \<union> set (best_files a (stage_i self))"
    by (rule fit_files_dom [OF f])
  show "\<forall>g\<in>set (gates (log t)). set (snd g) \<subseteq> dom (files t)"
    by (rule fit_gate_in_store [OF f])
next
  assume i: "PromptCCD_Model_init gv G fs' a (Some prev) i = Inr tr"
  then show "loaded tr = best_files a (i - 1)" by (rule init_loaded)
  from i show "fs' (save_file a (i - 1) ''_model_best.pt'') = Some (model tr)"
    and "fs' (save_file a (i - 1) ''_proj_head_best.pt'') = Some (projection_head tr)"
    by (auto simp: PromptCCD_Model_init_def torch_load_def load_file_save_file
        split: sum.splits option.splits)
next
  assume "fs' (save_file a (i - 1) ''_model_best.pt'') = None
        \<or> fs' (save_file a (i - 1) ''_proj_head_best.pt'') = None"
  then show "PromptCCD_Model_init gv G fs' a (Some prev) i = Inl FileNotFoundError"
    by (rule init_missing)
next
  assume "save_path a \<noteq> [] \<and> last (save_path a) \<noteq> CHR ''/''
        \<and> (ccd_model a = [] \<or> hd (ccd_model a) \<noteq> CHR ''/'')"
  then have h: "save_path a \<noteq> []" "last (save_path a) \<noteq> CHR ''/''"
    "ccd_model a = [] \<or> hd (ccd_model a) \<noteq> CHR ''/''" by simp_all
  show "latest_files a i = [conventional a i ''model'' False,
                            conventional a i ''model_proj_head'' False]"
    by (rule conventional_names(1) [OF h])
  show "best_files a i = [conventional a i ''model'' True,
                             conventional a i ''proj_head'' True]"
    by (rule conventional_names(2) [OF h])
qed

lemma ex_args1: "example_args = example_args\<lparr>epochs := 1\<rparr>"
  by (simp add: example_args_def)

lemma ex_run1_example:
  "fit example_env example_args example_trainer fs =
     Inr \<lparr>r_model = (), r_head = (), r_gmm = (), r_opt = (), res = None,
          best_test_acc_lab = 1 / 10,
          files = fs(''out/model/m_stage_0_model.pt'' \<mapsto> (),
                     ''out/model/m_stage_0_model_proj_head.pt'' \<mapsto> (),
                     ''out/model/m_stage_0_model_best.pt'' \<mapsto> (),
                     ''out/model/m_stage_0_proj_head_best.pt'' \<mapsto> ()),
          log = [Refit 0, Step 0 None (Finite 2),
                 Gate 0 (1 / 10)
                   [''out/model/m_stage_0_model.pt'', ''out/model/m_stage_0_model_proj_head.pt'',
                    ''out/model/m_stage_0_model_best.pt'',
                    ''out/model/m_stage_0_proj_head_best.pt'']]\<rparr>"
  by (subst ex_env) (simp add: ex_run1 ex_acc)

lemma ex_init1:
  assumes "fs ''out/model/m_stage_0_model_best.pt'' = Some ()"
    "fs ''out/model/m_stage_0_proj_head_best.pt'' = Some ()"
  shows "PromptCCD_Model_init ((), ()) (\<lambda>K. ()) fs example_args (Some ((), ())) 1 =
           Inr \<lparr>model = (), projection_head = (), gmm_prompt = (), stage_i = 1,
                loaded = [''out/model/m_stage_0_model_best.pt'',
                          ''out/model/m_stage_0_proj_head_best.pt'']\<rparr>"
proof -
  have p: "load_file example_args 0 ''_model_best.pt'' = ''out/model/m_stage_0_model_best.pt''"
    "load_file example_args 0 ''_proj_head_best.pt'' = ''out/model/m_stage_0_proj_head_best.pt''"
    unfolding load_file_save_file by (subst ex_args1, simp only: ex_paths)+
  have c: "component_count example_args 1 = Inr 60"
    by (simp add: component_count_def example_args_def)
  show ?thesis
    by (simp add: PromptCCD_Model_init_def p torch_load_def assms c)
qed

theorem checkpoint_names_witness:
  "\<exists>t tr. fit example_env example_args example_trainer Map.empty = Inr t
     \<and> PromptCCD_Model_init ((), ()) (\<lambda>K. ()) (files t) example_args (Some ((), ())) 1 = Inr tr
     \<and> save_path example_args \<noteq> [] \<and> last (save_path example_args) \<noteq> CHR ''/''
     \<and> (ccd_model example_args = [] \<or> hd (ccd_model example_args) \<noteq> CHR ''/'')
     \<and> loaded tr = best_files example_args (1 - 1)
     \<and> best_files example_args (1 - 1) = [conventional example_args (1 - 1) ''model'' True,
                                               conventional example_args (1 - 1) ''proj_head'' True]
     \<and> files t (save_file example_args (1 - 1) ''_model_best.pt'') = Some (model tr)
     \<and> files t (save_file example_args (1 - 1) ''_proj_head_best.pt'')
           = Some (projection_head tr)
     \<and> Map.empty (save_file example_args (1 - 1) ''_model_best.pt'') = (None :: unit option)
     \<and> PromptCCD_Model_init ((), ()) (\<lambda>K. ()) Map.empty example_args (Some ((), ())) 1
           = (Inl FileNotFoundError :: error + (unit, unit) trainer)
     \<and> gates (log t) \<noteq> []
     \<and> (\<forall>g\<in>set (gates (log t)). set (snd g) \<subseteq> dom (files t))
     \<and> (\<forall>g\<in>set (gates (log t)).
            snd g = latest_files example_args (stage_i example_trainer)
            \<or> snd g = latest_files example_args (stage_i example_trainer)
                       @ best_files example_args (stage_i example_trainer))"
proof -
  let ?t = "\<lparr>r_model = (), r_head = (), r_gmm = (), r_opt = (), res = None :: nat option,
          best_test_acc_lab = 1 / 10,
          files = Map.empty(''out/model/m_stage_0_model.pt'' \<mapsto> (),
                     ''out/model/m_stage_0_model_proj_head.pt'' \<mapsto> (),
                     ''out/model/m_stage_0_model_best.pt'' \<mapsto> (),
                     ''out/model/m_stage_0_proj_head_best.pt'' \<mapsto> ()),
          log = [Refit 0, Step 0 None (Finite 2),
                 Gate 0 (1 / 10)
                   [''out/model/m_stage_0_model.pt'', ''out/model/m_stage_0_model_proj_head.pt'',
                    ''out/model/m_stage_0_model_best.pt'',
                    ''out/model/m_stage_0_proj_head_best.pt'']]\<rparr>"
  let ?tr = "\<lparr>model = (), projection_head = (), gmm_prompt = (), stage_i = 1,
                loaded = [''out/model/m_stage_0_model_best.pt'',
                          ''out/model/m_stage_0_proj_head_best.pt'']\<rparr>"
  have t: "fit example_env example_args example_trainer Map.empty = Inr ?t"
    by (rule ex_run1_example)
  have tr: "PromptCCD_Model_init ((), ()) (\<lambda>K. ()) (files ?t) example_args (Some ((), ())) 1 = Inr ?tr"
    by (rule ex_init1) simp_all
  have h: "save_path example_args \<noteq> [] \<and> last (save_path example_args) \<noteq> CHR ''/''
     \<and> (ccd_model example_args = [] \<or> hd (ccd_model example_args) \<noteq> CHR ''/'')"
    by (simp add: example_args_def)
  have c1: "\<forall>g\<in>set (gates (log ?t)).
            snd g = latest_files example_args (stage_i example_trainer)
            \<or> snd g = latest_files example_args (stage_i example_trainer)
                       @ best_files example_args (stage_i example_trainer)"
    using checkpoint_names [where a = example_args and E = example_env and self = example_trainer
        and fs = Map.empty and t = ?t] t by blast
  have c2: "loaded ?tr = best_files example_args (1 - 1)"
    using checkpoint_names [where a = example_args and gv = "((), ())" and G = "\<lambda>K. ()"
        and fs' = "files ?t" and prev = "((), ())" and i = 1 and tr = ?tr] tr by blast
  have c3: "best_files example_args (1 - 1) = [conventional example_args (1 - 1) ''model'' True,
                                               conventional example_args (1 - 1) ''proj_head'' True]"
    using checkpoint_names [where a = example_args and i = "1 - 1"] h by blast
  note i = checkpoint_names [where a = example_args and gv = "((), ())" and G = "\<lambda>K. ()"
        and fs' = "files ?t" and prev = "((), ())" and i = 1 and tr = ?tr,
        THEN conjunct2, THEN conjunct2, THEN conjunct1, rule_format, OF tr]
  have c4: "files ?t (save_file example_args (1 - 1) ''_model_best.pt'') = Some (model ?tr)"
    by (rule i [THEN conjunct2, THEN conjunct1])
  have c5: "files ?t (save_file example_args (1 - 1) ''_proj_head_best.pt'')
           = Some (projection_head ?tr)"
    by (rule i [THEN conjunct2, THEN conjunct2])
  have n: "Map.empty (save_file example_args (1 - 1) ''_model_best.pt'') = (None :: unit option)"
    by simp
  have c6: "PromptCCD_Model_init ((), ()) (\<lambda>K. ()) Map.empty example_args (Some ((), ())) 1
           = (Inl FileNotFoundError :: error + (unit, unit) trainer)"
    by (rule checkpoint_names [where a = example_args and gv = "((), ())" and G = "\<lambda>K. ()"
        and fs' = Map.empty and prev = "((), ())" and i = 1,
        THEN conjunct2, THEN conjunct2, THEN conjunct2, THEN conjunct1, rule_format])
      simp
  have c7: "\<forall>g\<in>set (gates (log ?t)). set (snd g) \<subseteq> dom (files ?t)"
    by (rule checkpoint_names [where a = example_args and E = example_env
        and self = example_trainer and fs = Map.empty and t = ?t,
        THEN conjunct2, THEN conjunct1, rule_format, OF t, THEN conjunct2, THEN conjunct1])
  have g: "gates (log ?t) \<noteq> []" by (simp add: gates_def)
  show ?thesis
    apply (rule exI [of _ ?t])
    apply (rule exI [of _ ?tr])
    apply (intro conjI)
    apply (rule t)
    apply (rule tr)
    apply (rule h [THEN conjunct1])
    apply (rule h [THEN conjunct2, THEN conjunct1])
    apply (rule h [THEN conjunct2, THEN conjunct2])
    apply (rule c2)
    apply (rule c3)
    apply (rule c4)
    apply (rule c5)
    apply (rule n)
    apply (rule c6)
    apply (rule g)
    apply (rule c7)
    apply (rule c1)
    done
qed

text \<open>
  After a stage whose gate improved on the tracker the store holds the best projection head
  under \<open>m_stage_0_proj_head_best.pt\<close>, and nothing under the name that the convention of the
  specification gives it.
\<close>

theorem checkpoint_names_counterexample:
  "map_sum id (\<lambda>t. (conventional example_args 0 ''model_proj_head'' True \<in> dom (files t),
                     ''out/model/m_stage_0_proj_head_best.pt'' \<in> dom (files t)))
     (fit example_env example_args example_trainer Map.empty) = Inr (False, True)
   \<and> conventional example_args 0 ''model_proj_head'' True
       = ''out/model/m_stage_0_model_proj_head_best.pt''"
proof -
  have c: "conventional example_args 0 ''model_proj_head'' True
       = ''out/model/m_stage_0_model_proj_head_best.pt''"
    by (simp add: conventional_def example_args_def str_int_def str_nat.simps digit_char_def)
  show ?thesis
    unfolding c ex_run1_example by simp
qed

subsection \<open>A stage that never improves on the tracker\<close>

text \<open>
  Claim C10. If the trainer of a stage returns and every evaluation gate gave an accuracy
  on the old classes of at most 0, then every gate saved the two latest files and nothing
  else, and the store holds under the best names of the stage what it held before the
  stage. If a best file of the stage was missing before, the lifecycle manager of the next
  stage, given a previous model, fails with FileNotFoundError.
\<close>

theorem no_best_checkpoint:
  assumes "fit E a self fs = Inr t"
    and "\<forall>g\<in>set (gates (log t)). fst g \<le> 0"
    and "fs (save_file a (stage_i self) ''_model_best.pt'') = None
         \<or> fs (save_file a (stage_i self) ''_proj_head_best.pt'') = None"
  shows "(\<forall>g\<in>set (gates (log t)).
            snd g = [save_file a (stage_i self) ''_model.pt'',
                     save_file a (stage_i self) ''_model_proj_head.pt''])
         \<and> (\<forall>g\<in>set (gates (log t)). set (snd g) \<subseteq> dom (files t))
         \<and> files t (save_file a (stage_i self) ''_model_best.pt'')
             = fs (save_file a (stage_i self) ''_model_best.pt'')
         \<and> files t (save_file a (stage_i self) ''_proj_head_best.pt'')
             = fs (save_file a (stage_i self) ''_proj_head_best.pt'')
         \<and> PromptCCD_Model_init gv G (files t) a (Some prev) (stage_i self + 1)
             = Inl FileNotFoundError"
proof -
  note u = fit_best_untouched [OF assms(1,2)]
  have g: "\<forall>g\<in>set (gates (log t)).
            snd g = [save_file a (stage_i self) ''_model.pt'',
                     save_file a (stage_i self) ''_model_proj_head.pt'']"
    using u by (simp add: latest_files_def)
  have b: "files t (save_file a (stage_i self) ''_model_best.pt'')
             = fs (save_file a (stage_i self) ''_model_best.pt'')"
    "files t (save_file a (stage_i self) ''_proj_head_best.pt'')
             = fs (save_file a (stage_i self) ''_proj_head_best.pt'')"
    using u by (simp_all add: best_files_def)
  have "files t (save_file a (stage_i self + 1 - 1) ''_model_best.pt'') = None
        \<or> files t (save_file a (stage_i self + 1 - 1) ''_proj_head_best.pt'') = None"
    using assms(3) b by simp
  then have i: "PromptCCD_Model_init gv G (files t) a (Some prev) (stage_i self + 1)
             = Inl FileNotFoundError"
    by (rule init_missing)
  show ?thesis
    using g b i fit_gate_in_store [OF assms(1)] by (intro conjI)
qed

lemma ex_run1_zero:
  "fit (example_env\<lparr>eval_kmeans := (\<lambda>m g s e. 0)\<rparr>) example_args example_trainer fs =
     Inr \<lparr>r_model = (), r_head = (), r_gmm = (), r_opt = (), res = None,
          best_test_acc_lab = 0,
          files = fs(''out/model/m_stage_0_model.pt'' \<mapsto> (),
                     ''out/model/m_stage_0_model_proj_head.pt'' \<mapsto> ()),
          log = [Refit 0, Step 0 None (Finite 2),
                 Gate 0 0 [''out/model/m_stage_0_model.pt'',
                           ''out/model/m_stage_0_model_proj_head.pt'']]\<rparr>"
  using ex_run1 [of "\<lambda>e. 0" fs] by simp

text \<open>One epoch whose gate gives accuracy 0, from an empty store.\<close>

theorem no_best_checkpoint_witness:
  "\<exists>t. fit (example_env\<lparr>eval_kmeans := (\<lambda>m g s e. 0)\<rparr>) example_args example_trainer Map.empty
         = Inr t
     \<and> gates (log t) = [(0, [''out/model/m_stage_0_model.pt'',
                             ''out/model/m_stage_0_model_proj_head.pt''])]
     \<and> (\<forall>g\<in>set (gates (log t)). fst g \<le> 0)
     \<and> (Map.empty (save_file example_args (stage_i example_trainer) ''_model_best.pt'') = None
         \<or> Map.empty (save_file example_args (stage_i example_trainer) ''_proj_head_best.pt'')
             = (None :: unit option))
     \<and> dom (files t) = {''out/model/m_stage_0_model.pt'',
                          ''out/model/m_stage_0_model_proj_head.pt''}
     \<and> PromptCCD_Model_init ((), ()) (\<lambda>K. ()) (files t) example_args (Some ((), ()))
           (stage_i example_trainer + 1) = Inl FileNotFoundError"
proof -
  let ?t = "\<lparr>r_model = (), r_head = (), r_gmm = (), r_opt = (), res = None :: nat option,
          best_test_acc_lab = 0,
          files = Map.empty(''out/model/m_stage_0_model.pt'' \<mapsto> (),
                     ''out/model/m_stage_0_model_proj_head.pt'' \<mapsto> ()),
          log = [Refit 0, Step 0 None (Finite 2),
                 Gate 0 0 [''out/model/m_stage_0_model.pt'',
                           ''out/model/m_stage_0_model_proj_head.pt'']]\<rparr>"
  have t: "fit (example_env\<lparr>eval_kmeans := (\<lambda>m g s e. 0)\<rparr>) example_args example_trainer Map.empty
         = Inr ?t"
    by (rule ex_run1_zero)
  have g: "gates (log ?t) = [(0, [''out/model/m_stage_0_model.pt'',
                             ''out/model/m_stage_0_model_proj_head.pt''])]"
    by (simp add: gates_def)
  have le: "\<forall>g\<in>set (gates (log ?t)). fst g \<le> 0"
    unfolding g by simp
  have e: "Map.empty (save_file example_args (stage_i example_trainer) ''_model_best.pt'') = None
         \<or> Map.empty (save_file example_args (stage_i example_trainer) ''_proj_head_best.pt'')
             = (None :: unit option)"
    by simp
  have d: "dom (files ?t) = {''out/model/m_stage_0_model.pt'',
                          ''out/model/m_stage_0_model_proj_head.pt''}"
    by auto
  note c = no_best_checkpoint [OF t le e, of "((), ())" "\<lambda>K. ()" "((), ())"]
  have i: "PromptCCD_Model_init ((), ()) (\<lambda>K. ()) (files ?t) example_args (Some ((), ()))
           (stage_i example_trainer + 1) = Inl FileNotFoundError"
    by (rule c [THEN conjunct2, THEN conjunct2, THEN conjunct2, THEN conjunct2])
  show ?thesis
    by (rule exI [of _ ?t]) (intro conjI t g le e d i)
qed

subsection \<open>The conditioning context of the backbone\<close>

lemma context_ok_Step:
  assumes "context_ok E a stage evs" "Step e ctx l \<in> set evs"
  shows "if e \<ge> fit_gmm_every_n_epoch a then is_prediction E stage ctx else ctx = None"
  using assms unfolding context_ok_def by blast

lemma context_ok_Refit:
  assumes "context_ok E a stage evs" "Refit e \<in> set evs"
  shows "e mod fit_gmm_every_n_epoch a = 0"
  using assms unfolding context_ok_def by blast

lemma context_ok_Gate:
  assumes "context_ok E a stage evs"
  shows "context_ok E a stage (evs @ [Gate e acc ps])"
  using assms unfolding context_ok_def by simp

lemma fit_context:
  assumes "fit E a self fs = Inr t"
  shows "context_ok E a (stage_i self) (log t)"
proof -
  let ?n = "fit_gmm_every_n_epoch a"
  let ?P = "\<lambda>ys st. ys = map int [0..<length ys] \<longrightarrow>
              context_ok E a (stage_i self) (log st)
              \<and> ((\<forall>e\<in>set ys. e < ?n) \<longrightarrow> res st = None)"
  have "?P (map int [0..<nat (epochs a)]) t"
  proof (rule foldM_trace [OF assms [unfolded fit_def], where P = ?P])
    show "?P [] (start E self fs)"
      by (simp add: start_def context_ok_def)
  next
    fix ys x u v
    assume u: "?P ys u" and s: "epoch_step E a (stage_i self) u x = Inr v"
    show "?P (ys @ [x]) v"
    proof
      assume idx: "ys @ [x] = map int [0..<length (ys @ [x])]"
      then have ys: "ys = map int [0..<length ys]" and x: "x = int (length ys)"
        by simp_all
      from u ys have cu: "context_ok E a (stage_i self) (log u)"
        and ru: "(\<forall>e\<in>set ys. e < ?n) \<longrightarrow> res u = None" by simp_all
      have below: "\<forall>e\<in>set ys. e < x"
      proof
        fix e assume "e \<in> set ys"
        then have "e \<in> set (map int [0..<length ys])" using ys by simp
        then show "e < x" unfolding x by auto
      qed
      from s show "context_ok E a (stage_i self) (log v)
                   \<and> ((\<forall>e\<in>set (ys @ [x]). e < ?n) \<longrightarrow> res v = None)"
      proof (rule epoch_step_Inr)
        fix st3 steps
        assume h: "log st3 = log u @ (if x mod ?n = 0 then [Refit x] else []) @ steps"
          "\<forall>ev\<in>set steps. \<exists>ctx l. ev = Step x ctx l
             \<and> (if x \<ge> ?n then is_prediction E (stage_i self) ctx else ctx = res u)"
          "\<not> x \<ge> ?n \<Longrightarrow> res st3 = res u"
          "v = (if x mod eval_every_n_epoch a = 0 then eval_gate E a (stage_i self) x st3 else st3)"
        have small: "res u = None" if "\<not> x \<ge> ?n"
        proof -
          have "\<forall>e\<in>set ys. e < ?n" using below that by fastforce
          with ru show ?thesis by simp
        qed
        have st: "\<forall>ev\<in>set steps. \<exists>ctx l. ev = Step x ctx l
             \<and> (if x \<ge> ?n then is_prediction E (stage_i self) ctx else ctx = None)"
        proof
          fix ev assume "ev \<in> set steps"
          with h(2) obtain ctx l where c: "ev = Step x ctx l"
            "if x \<ge> ?n then is_prediction E (stage_i self) ctx else ctx = res u" by blast
          show "\<exists>ctx l. ev = Step x ctx l
             \<and> (if x \<ge> ?n then is_prediction E (stage_i self) ctx else ctx = None)"
            using c small by (cases "x \<ge> ?n") auto
        qed
        have c3: "context_ok E a (stage_i self) (log st3)"
          unfolding context_ok_def h(1)
        proof (intro conjI allI impI)
          fix e ctx l
          assume "Step e ctx l \<in> set (log u @ (if x mod ?n = 0 then [Refit x] else []) @ steps)"
          then consider "Step e ctx l \<in> set (log u)" | "Step e ctx l \<in> set steps"
            by (auto split: if_splits)
          then show "if e \<ge> ?n then is_prediction E (stage_i self) ctx else ctx = None"
          proof cases
            case 1
            with cu show ?thesis by (rule context_ok_Step)
          next
            case 2
            with st obtain ctx' l' where "Step e ctx l = Step x ctx' l'"
              "if x \<ge> ?n then is_prediction E (stage_i self) ctx' else ctx' = None" by blast
            then show ?thesis by simp
          qed
        next
          fix e
          assume "Refit e \<in> set (log u @ (if x mod ?n = 0 then [Refit x] else []) @ steps)"
          then consider "Refit e \<in> set (log u)" | "e = x \<and> x mod ?n = 0" | "Refit e \<in> set steps"
            by (auto split: if_splits)
          then show "e mod ?n = 0"
          proof cases
            case 1
            with cu show ?thesis by (rule context_ok_Refit)
          next
            case 2
            then show ?thesis by simp
          next
            case 3
            with h(2) obtain ctx' l' where "Refit e = Step x ctx' l'" by blast
            then show ?thesis by simp
          qed
        qed
        have cv: "context_ok E a (stage_i self) (log v)"
        proof (cases "x mod eval_every_n_epoch a = 0")
          case False
          with h(4) c3 show ?thesis by simp
        next
          case True
          then have "log v = log st3 @ [Gate x (eval_kmeans E (r_model st3) (r_gmm st3) (stage_i self) x)
                 (latest_files a (stage_i self) @
                   (if eval_kmeans E (r_model st3) (r_gmm st3) (stage_i self) x > best_test_acc_lab st3
                    then best_files a (stage_i self) else []))]"
            using h(4) by (simp add: eval_gate_log)
          with c3 show ?thesis by (simp only: context_ok_Gate)
        qed
        have rv: "res v = res st3" using h(4) by (simp add: eval_gate_res)
        have "res v = None" if "\<forall>e\<in>set (ys @ [x]). e < ?n"
        proof -
          from that have "\<not> x \<ge> ?n" by simp
          then show ?thesis using rv h(3) small by simp
        qed
        with cv show ?thesis by blast
      qed
    qed
  qed
  then show ?thesis by simp
qed


lemma batch_step_context:
  assumes "batch_step E a stage e st b = Inr st'"
  shows "res st' = (if e \<ge> fit_gmm_every_n_epoch a
                    then Some (gmm_predict E (r_gmm st)
                                 (backbone E (r_model st) (concat (images b)) stage None))
                    else res st)
         \<and> (\<exists>loss. batch_loss E a stage
                       (map normalize (head E (r_head st)
                          (backbone E (r_model st) (concat (images b)) stage (res st'))))
                       (class_labels b) (mask_lab b) = Inr loss
                    \<and> log st' = log st @ [Step e (res st') loss])"
  using assms
  by (auto simp: batch_step_def Let_def bind_err_Inr_iff case_prod_beta split: if_splits)

text \<open>
  Claim C3, as amended. A batch step in an epoch \<open>e \<ge> fit_gmm_every_n_epoch\<close> asks the mixture
  prompt for a prediction from the features of the backbone called with no context (the
  call under \<open>no_grad\<close>) and passes it as context to the forward whose features enter the
  loss; in an epoch \<open>e < fit_gmm_every_n_epoch\<close> it passes the context it has. Over a whole
  stage that context is a prediction in every batch of every epoch
  \<open>e \<ge> fit_gmm_every_n_epoch\<close> and None in every batch of the epochs before, from epoch 0 on,
  although the mixture is refit in epoch 0: it is refit in the epochs that
  \<open>fit_gmm_every_n_epoch\<close> divides.
\<close>

theorem conditioning_context_gate:
  assumes "fit E a self fs = Inr t"
  shows "(\<forall>e ctx l. Step e ctx l \<in> set (log t) \<longrightarrow>
            (if e \<ge> fit_gmm_every_n_epoch a then is_prediction E (stage_i self) ctx
             else ctx = None))
         \<and> (\<forall>e. Refit e \<in> set (log t) \<longrightarrow> e mod fit_gmm_every_n_epoch a = 0)
         \<and> (\<forall>e st b st'. batch_step E a (stage_i self) e st b = Inr st' \<longrightarrow>
               res st' = (if e \<ge> fit_gmm_every_n_epoch a
                          then Some (gmm_predict E (r_gmm st)
                                 (backbone E (r_model st) (concat (images b)) (stage_i self) None))
                          else res st)
               \<and> (\<exists>loss. batch_loss E a (stage_i self)
                       (map normalize (head E (r_head st)
                          (backbone E (r_model st) (concat (images b)) (stage_i self) (res st'))))
                       (class_labels b) (mask_lab b) = Inr loss
                    \<and> log st' = log st @ [Step e (res st') loss]))"
proof (intro conjI allI impI)
  note c = fit_context [OF assms]
  show "if e \<ge> fit_gmm_every_n_epoch a then is_prediction E (stage_i self) ctx else ctx = None"
    if "Step e ctx l \<in> set (log t)" for e ctx l
    using c that by (rule context_ok_Step)
  show "e mod fit_gmm_every_n_epoch a = 0" if "Refit e \<in> set (log t)" for e
    using c that by (rule context_ok_Refit)
next
  fix e st b st'
  assume s: "batch_step E a (stage_i self) e st b = Inr st'"
  note bc = batch_step_context [OF s]
  show "res st' = (if e \<ge> fit_gmm_every_n_epoch a
                          then Some (gmm_predict E (r_gmm st)
                                 (backbone E (r_model st) (concat (images b)) (stage_i self) None))
                          else res st)"
    by (rule bc [THEN conjunct1])
  show "\<exists>loss. batch_loss E a (stage_i self)
                       (map normalize (head E (r_head st)
                          (backbone E (r_model st) (concat (images b)) (stage_i self) (res st'))))
                       (class_labels b) (mask_lab b) = Inr loss
                    \<and> log st' = log st @ [Step e (res st') loss]"
    by (rule bc [THEN conjunct2])
qed

lemma ex_fit2:
  "map_sum id log (fit example_env (example_args\<lparr>epochs := 2\<rparr>) example_trainer Map.empty) =
     Inr [Refit 0, Step 0 None (Finite 2),
          Gate 0 (1 / 10) [''out/model/m_stage_0_model.pt'', ''out/model/m_stage_0_model_proj_head.pt'',
                     ''out/model/m_stage_0_model_best.pt'', ''out/model/m_stage_0_proj_head_best.pt''],
          Refit 1, Step 1 (Some 7) (Finite 2),
          Gate 1 (1 / 20) [''out/model/m_stage_0_model.pt'', ''out/model/m_stage_0_model_proj_head.pt'']]"
proof -
  have s: "stage_i example_trainer = 0" by (simp add: example_trainer_def)
  have u: "map int [0..<nat 2] = [0, 1]" by (simp add: upt_conv_Cons)
  show ?thesis
    apply (subst ex_env)
    unfolding fit_def ex_fields s u ex_start'
    by (simp add: ex_epoch ex_acc)
qed

text \<open>Two epochs with a refit in every epoch: no context in epoch 0, a prediction in epoch 1.\<close>

theorem conditioning_context_gate_witness:
  "\<exists>t. fit example_env (example_args\<lparr>epochs := 2\<rparr>) example_trainer Map.empty = Inr t
     \<and> Step 0 None (Finite 2) \<in> set (log t)
     \<and> Step 1 (Some 7) (Finite 2) \<in> set (log t)
     \<and> (if (1 :: int) \<ge> fit_gmm_every_n_epoch (example_args\<lparr>epochs := 2\<rparr>)
         then is_prediction example_env (stage_i example_trainer) (Some 7)
         else Some (7 :: nat) = None)
     \<and> fit_gmm_every_n_epoch (example_args\<lparr>epochs := 2\<rparr>) = 1"
proof -
  from ex_fit2 obtain t where
    t: "fit example_env (example_args\<lparr>epochs := 2\<rparr>) example_trainer Map.empty = Inr t"
    and l: "log t = [Refit 0, Step 0 None (Finite 2),
          Gate 0 (1 / 10) [''out/model/m_stage_0_model.pt'', ''out/model/m_stage_0_model_proj_head.pt'',
                     ''out/model/m_stage_0_model_best.pt'', ''out/model/m_stage_0_proj_head_best.pt''],
          Refit 1, Step 1 (Some 7) (Finite 2),
          Gate 1 (1 / 20) [''out/model/m_stage_0_model.pt'', ''out/model/m_stage_0_model_proj_head.pt'']]"
    by (cases "fit example_env (example_args\<lparr>epochs := 2\<rparr>) example_trainer Map.empty") auto
  have s0: "Step 0 None (Finite 2) \<in> set (log t)" and s1: "Step 1 (Some 7) (Finite 2) \<in> set (log t)"
    unfolding l by simp_all
  note c = conditioning_context_gate [OF t, THEN conjunct1, rule_format, OF s1]
  have n: "fit_gmm_every_n_epoch (example_args\<lparr>epochs := 2\<rparr>) = 1"
    by (rule ex_fields)
  show ?thesis
    by (rule exI [of _ t]) (intro conjI t s0 s1 c n)
qed

text \<open>
  With a refit in every epoch the mixture is refit in epoch 0, the first refit epoch, and the
  batch of epoch 0 gets no context.
\<close>

theorem conditioning_context_gate_counterexample:
  "map_sum id log (fit example_env example_args example_trainer Map.empty) =
     Inr [Refit 0, Step 0 None (Finite 2),
          Gate 0 (1 / 10) [''out/model/m_stage_0_model.pt'', ''out/model/m_stage_0_model_proj_head.pt'',
                     ''out/model/m_stage_0_model_best.pt'', ''out/model/m_stage_0_proj_head_best.pt'']]
   \<and> 0 mod fit_gmm_every_n_epoch example_args = 0"
proof -
  have "fit_gmm_every_n_epoch example_args = 1" by (simp add: example_args_def)
  then show ?thesis by (simp add: ex_run1_example)
qed

end
